theory Spec2Isabelle
  imports Complex_Main "HOL-Library.Char_ord" "HOL-Library.List_Lexorder"
begin

section \<open>Habit tracker: schedule evaluation, streaks, rates and the check-in store\<close>

text \<open>
  A shallow embedding of \<^verbatim>\<open>habit_tracker/metrics.py\<close>, \<^verbatim>\<open>habit_tracker/db.py\<close>,
  \<^verbatim>\<open>string_to_days\<close> of \<^verbatim>\<open>pages/1_Habits.py\<close> and \<^verbatim>\<open>daily_progress_frame\<close> of
  \<^verbatim>\<open>Habit_Tracker.py\<close>.

  Conventions of the embedding.
  \<^item> A Python \<^verbatim>\<open>str\<close> is a \<open>string\<close>; a \<open>char\<close> stands for the code point of the same
    number, so the strings covered are those over code points 0..255.
  \<^item> A \<^verbatim>\<open>datetime.date\<close> is its proleptic Gregorian ordinal (\<^verbatim>\<open>date.toordinal()\<close>), an
    \<open>int\<close> between \<open>MINORDINAL\<close> (0001-01-01) and \<open>MAXORDINAL\<close> (9999-12-31). Adding a
    \<^verbatim>\<open>timedelta\<close> that leaves this range raises \<^verbatim>\<open>OverflowError\<close>, as \<^verbatim>\<open>datetime\<close> does.
  \<^item> An exception is a value \<open>Inl e\<close> of the result type \<open>py_error + 'a\<close>.
  \<^item> A float is the rational number it denotes. True division of two ints gives the
    binary64 value nearest to the quotient, ties to even (\<open>float_quot\<close>).
  \<^item> An int bound to an SQL parameter must fit the 64-bit SQLite INTEGER; the binding
    raises \<^verbatim>\<open>OverflowError\<close> otherwise.
\<close>

subsection \<open>Python exceptions\<close>

datatype py_error =
  OverflowError | ValueError | KeyError | ZeroDivisionError | IntegrityError | OperationalError

subsection \<open>Strings: \<^verbatim>\<open>str.strip\<close>, \<^verbatim>\<open>str.split\<close>, \<^verbatim>\<open>int\<close>\<close>

text \<open>\<^verbatim>\<open>str.isspace\<close> on one character, for the code points 0..255: TAB, LF, VT, FF, CR,
  FS, GS, RS, US, SPACE, NEL (0x85) and NBSP (0xA0).\<close>

definition isspace :: "char \<Rightarrow> bool" where
  "isspace c = ((of_char c :: nat) \<in> {9, 10, 11, 12, 13, 28, 29, 30, 31, 32, 133, 160})"

definition strip :: "string \<Rightarrow> string" where
  "strip s = rev (dropWhile isspace (rev (dropWhile isspace s)))"

text \<open>\<^verbatim>\<open>s.split(sep)\<close> for a one-character separator: the result is never empty, and
  \<^verbatim>\<open>"".split(",") == [""]\<close>.\<close>

fun split :: "char \<Rightarrow> string \<Rightarrow> string list" where
  "split sep [] = [[]]"
| "split sep (c # cs) =
     (if c = sep then [] # split sep cs
      else (case split sep cs of
              [] \<Rightarrow> [[c]]
            | w # ws \<Rightarrow> (c # w) # ws))"

definition isdigit :: "char \<Rightarrow> bool" where
  "isdigit c = (48 \<le> (of_char c :: nat) \<and> (of_char c :: nat) \<le> 57)"

definition digit_val :: "char \<Rightarrow> nat" where
  "digit_val c = of_char c - 48"

text \<open>The digits of an integer literal after its first digit: digits, with single
  underscores allowed between two digits (\<^verbatim>\<open>int("1_0") == 10\<close>; \<^verbatim>\<open>int("1__0")\<close> and
  \<^verbatim>\<open>int("1_")\<close> raise).\<close>

fun parse_digits :: "nat \<Rightarrow> string \<Rightarrow> nat option" where
  "parse_digits acc [] = Some acc"
| "parse_digits acc [c] = (if isdigit c then Some (10 * acc + digit_val c) else None)"
| "parse_digits acc (c # d # ds) =
     (if isdigit c then parse_digits (10 * acc + digit_val c) (d # ds)
      else if c = CHR ''_'' \<and> isdigit d then parse_digits (10 * acc + digit_val d) ds
      else None)"

text \<open>The default of \<^verbatim>\<open>sys.get_int_max_str_digits()\<close>: \<^verbatim>\<open>int\<close> refuses a literal with more
  digits (underscores and the sign are not counted, leading zeros are).\<close>

definition MAX_STR_DIGITS :: nat where
  "MAX_STR_DIGITS = 4300"

text \<open>\<^verbatim>\<open>int(s)\<close> for a string, base 10: surrounding whitespace is dropped, an optional
  sign, then the digits; anything else raises \<^verbatim>\<open>ValueError\<close>.\<close>

definition py_int :: "string \<Rightarrow> py_error + int" where
  "py_int s =
     (let t = strip s;
          neg = (t \<noteq> [] \<and> hd t = CHR ''-'');
          body = (if t \<noteq> [] \<and> (hd t = CHR ''-'' \<or> hd t = CHR ''+'') then tl t else t)
      in case body of
           [] \<Rightarrow> Inl ValueError
         | d # ds \<Rightarrow>
             if isdigit d then
               (case parse_digits (digit_val d) ds of
                  None \<Rightarrow> Inl ValueError
                | Some n \<Rightarrow>
                    if MAX_STR_DIGITS < length (filter isdigit body) then Inl ValueError
                    else Inr (if neg then - int n else int n))
             else Inl ValueError)"

subsection \<open>True division of ints\<close>







subsection \<open>Dates\<close>

type_synonym date = int

definition MINORDINAL :: int where
  "MINORDINAL = 1"

definition MAXORDINAL :: int where
  "MAXORDINAL = 3652059"

definition valid_date :: "date \<Rightarrow> bool" where
  "valid_date d = (MINORDINAL \<le> d \<and> d \<le> MAXORDINAL)"

text \<open>\<^verbatim>\<open>d + timedelta(days=n)\<close>; \<^verbatim>\<open>d - timedelta(days=n)\<close> is \<open>date_add d (- n)\<close>.\<close>

definition date_add :: "date \<Rightarrow> int \<Rightarrow> py_error + date" where
  "date_add d n =
     (if MINORDINAL \<le> d + n \<and> d + n \<le> MAXORDINAL then Inr (d + n) else Inl OverflowError)"

text \<open>\<^verbatim>\<open>date.weekday()\<close>: Monday is 0; ordinal 1 is a Monday.\<close>

definition weekday :: "date \<Rightarrow> int" where
  "weekday d = (d + 6) mod 7"

text \<open>\<^verbatim>\<open>_ord2ymd\<close> of the \<^verbatim>\<open>datetime\<close> module: ordinal to (year, month, day).\<close>

definition DAYS_IN_MONTH :: "int list" where
  "DAYS_IN_MONTH = [-1, 31, 28, 31, 30, 31, 30, 31, 31, 30, 31, 30, 31]"

definition DAYS_BEFORE_MONTH :: "int list" where
  "DAYS_BEFORE_MONTH = [-1, 0, 31, 59, 90, 120, 151, 181, 212, 243, 273, 304, 334]"

definition ord2ymd :: "int \<Rightarrow> int \<times> int \<times> int" where
  "ord2ymd n0 =
     (let n = n0 - 1;
          n400 = n div 146097; n = n mod 146097;
          n100 = n div 36524; n = n mod 36524;
          n4 = n div 1461; n = n mod 1461;
          n1 = n div 365; n = n mod 365;
          year = n400 * 400 + 1 + n100 * 100 + n4 * 4 + n1
      in if n1 = 4 \<or> n100 = 4 then (year - 1, 12, 31)
         else
           (let leapyear = (n1 = 3 \<and> (n4 \<noteq> 24 \<or> n100 = 3));
                month = (n + 50) div 32;
                preceding = DAYS_BEFORE_MONTH ! nat month + (if month > 2 \<and> leapyear then 1 else 0)
            in if preceding > n then
                 (let month' = month - 1;
                      preceding' = preceding -
                        (DAYS_IN_MONTH ! nat month' + (if month' = 2 \<and> leapyear then 1 else 0))
                  in (year, month', n - preceding' + 1))
               else (year, month, n - preceding + 1)))"

definition digit_char :: "int \<Rightarrow> char" where
  "digit_char k = ''0123456789'' ! nat (k mod 10)"

text \<open>\<^verbatim>\<open>date.isoformat()\<close>, that is \<^verbatim>\<open>"%04d-%02d-%02d" % (year, month, day)\<close>, for the years
  1..9999 of a \<^verbatim>\<open>date\<close>.\<close>

definition isoformat :: "date \<Rightarrow> string" where
  "isoformat d =
     (case ord2ymd d of (y, m, dd) \<Rightarrow>
        [digit_char (y div 1000), digit_char (y div 100), digit_char (y div 10), digit_char y]
        @ ''-'' @ [digit_char (m div 10), digit_char m]
        @ ''-'' @ [digit_char (dd div 10), digit_char dd])"

subsection \<open>Habits and check-ins as the metrics see them\<close>

text \<open>A habit is a row of the \<^verbatim>\<open>habits\<close> table turned into a dict. \<open>None\<close> in
  \<open>schedule_type\<close> or \<open>custom_days\<close> stands for a missing key or a \<^verbatim>\<open>None\<close> value: for
  \<^verbatim>\<open>schedule_type\<close> both end in the final \<^verbatim>\<open>return True\<close> or in the \<^verbatim>\<open>"daily"\<close> default,
  which is \<^verbatim>\<open>True\<close> as well; for \<^verbatim>\<open>custom_days\<close> both give the empty string.\<close>

record habit =
  id_h :: int
  name :: string
  description :: string
  schedule_type :: "string option"
  custom_days :: "string option"
  created_at :: string

text \<open>A check-in as returned by \<^verbatim>\<open>list_checkins_for_habit\<close>: the keys \<^verbatim>\<open>day\<close>, \<^verbatim>\<open>done\<close>,
  \<^verbatim>\<open>note\<close> (fields \<open>done_c\<close>, \<open>note_c\<close>); \<open>done_c = None\<close> is a dict without that key (\<^verbatim>\<open>c.get("done", 0)\<close>).\<close>

record checkin =
  day :: string
  done_c :: "int option"
  note_c :: string

definition parse_custom_days :: "string option \<Rightarrow> int set" where
  "parse_custom_days custom_days_opt =
     (let custom_days = strip (case custom_days_opt of None \<Rightarrow> [] | Some s \<Rightarrow> s)
      in if custom_days = [] then {}
         else fold (\<lambda>p out.
                      let p = strip p
                      in if p = [] then out
                         else (case py_int p of Inr v \<Rightarrow> insert v out | Inl e \<Rightarrow> out))
                   (split CHR '','' custom_days) {})"

text \<open>\<^verbatim>\<open>string_to_days\<close> of the Habits page: the same tokens, then
  \<^verbatim>\<open>sorted(set([d for d in out if 0 <= d <= 6]))\<close>.\<close>

definition string_to_days :: "string option \<Rightarrow> int list" where
  "string_to_days s_opt =
     (let s = strip (case s_opt of None \<Rightarrow> [] | Some s \<Rightarrow> s)
      in if s = [] then []
         else
           (let out = fold (\<lambda>p out.
                              let p = strip p
                              in if p = [] then out
                                 else (case py_int p of Inr v \<Rightarrow> out @ [v] | Inl e \<Rightarrow> out))
                           (split CHR '','' s) []
            in sorted_list_of_set (set (filter (\<lambda>d. 0 \<le> d \<and> d \<le> 6) out))))"

definition is_due_on :: "habit \<Rightarrow> date \<Rightarrow> bool" where
  "is_due_on habit d =
     (let st = (case schedule_type habit of None \<Rightarrow> ''daily'' | Some s \<Rightarrow> s)
      in if st = ''daily'' then True
         else if st = ''weekdays'' then weekday d < 5
         else if st = ''custom'' then weekday d \<in> parse_custom_days (custom_days habit)
         else True)"

subsection \<open>Date ranges and the check-in lookup\<close>

text \<open>\<^verbatim>\<open>daterange\<close>: the \<^verbatim>\<open>while cur <= end\<close> loop. The step \<^verbatim>\<open>cur += timedelta(days=1)\<close> is
  taken after every appended day, also after the last one.\<close>

function daterange_loop :: "date \<Rightarrow> date \<Rightarrow> date list \<Rightarrow> py_error + date list" where
  "daterange_loop cur end_d days =
     (if cur \<le> end_d then
        (case date_add cur 1 of
           Inl e \<Rightarrow> Inl e
         | Inr cur' \<Rightarrow> daterange_loop cur' end_d (days @ [cur]))
      else Inr days)"
  by pat_completeness auto
termination
  by (relation "measure (\<lambda>(cur, end_d, days). nat (end_d - cur + 1))")
     (auto simp: date_add_def split: if_splits)

declare daterange_loop.simps [simp del]

definition daterange :: "date \<Rightarrow> date \<Rightarrow> py_error + date list" where
  "daterange start end_d = daterange_loop start end_d []"


text \<open>\<^verbatim>\<open>{c["day"]: int(c.get("done", 0)) for c in checkins}\<close>: a later check-in of the same
  day overwrites an earlier one.\<close>

definition checkin_lookup :: "checkin list \<Rightarrow> (string \<rightharpoonup> int)" where
  "checkin_lookup checkins =
     fold (\<lambda>c m. m(day c \<mapsto> (case done_c c of None \<Rightarrow> 0 | Some v \<Rightarrow> v))) checkins Map.empty"

text \<open>\<^verbatim>\<open>m.get(k, dflt)\<close>.\<close>

definition dict_get :: "('k \<rightharpoonup> 'v) \<Rightarrow> 'k \<Rightarrow> 'v \<Rightarrow> 'v" where
  "dict_get m k dflt = (case m k of None \<Rightarrow> dflt | Some v \<Rightarrow> v)"

subsection \<open>Streaks and success rate\<close>

text \<open>The \<^verbatim>\<open>while True\<close> loop of \<^verbatim>\<open>current_streak\<close>, with the loop variables \<open>cur\<close> and
  \<open>streak\<close>. \<open>None\<close> is a loop that never ends; \<open>Some (Inl e)\<close> an exception, \<open>Some (Inr n)\<close>
  the returned streak.\<close>

partial_function (option) streak_loop ::
  "habit \<Rightarrow> (string \<rightharpoonup> int) \<Rightarrow> date \<Rightarrow> date \<Rightarrow> int \<Rightarrow> (py_error + int) option" where
  "streak_loop habit lookup today cur streak =
     (if \<not> is_due_on habit cur then
        (case date_add cur (- 1) of
           Inl e \<Rightarrow> Some (Inl e)
         | Inr cur' \<Rightarrow>
             if streak = 0 \<and> today - cur' > 60 then Some (Inr 0)
             else streak_loop habit lookup today cur' streak)
      else if dict_get lookup (isoformat cur) 0 = 1 then
        (case date_add cur (- 1) of
           Inl e \<Rightarrow> Some (Inl e)
         | Inr cur' \<Rightarrow> streak_loop habit lookup today cur' (streak + 1))
      else Some (Inr streak))"

definition current_streak :: "habit \<Rightarrow> checkin list \<Rightarrow> date \<Rightarrow> (py_error + int) option" where
  "current_streak habit checkins today =
     streak_loop habit (checkin_lookup checkins) today today 0"

text \<open>One round of the \<^verbatim>\<open>for d in daterange(start, end)\<close> loop of \<^verbatim>\<open>longest_streak\<close>, on the
  pair \<open>(longest, cur_streak)\<close>.\<close>

definition longest_step :: "habit \<Rightarrow> (string \<rightharpoonup> int) \<Rightarrow> date \<Rightarrow> int \<times> int \<Rightarrow> int \<times> int" where
  "longest_step habit lookup d st =
     (case st of (longest, cur_streak) \<Rightarrow>
        if \<not> is_due_on habit d then (longest, cur_streak)
        else if dict_get lookup (isoformat d) 0 = 1
             then (max longest (cur_streak + 1), cur_streak + 1)
             else (longest, 0))"

definition longest_streak :: "habit \<Rightarrow> checkin list \<Rightarrow> date \<Rightarrow> date \<Rightarrow> py_error + int" where
  "longest_streak habit checkins start end_d =
     (let lookup = checkin_lookup checkins
      in case daterange start end_d of
           Inl e \<Rightarrow> Inl e
         | Inr days \<Rightarrow> Inr (fst (fold (longest_step habit lookup) days (0, 0))))"


text \<open>The glossary's streak, "consecutive due days with a completed check-in ... the
  maximum run within a window", on the sequence of done flags of the due days:
  \<open>lead_run\<close> is the number of done days at the front, \<open>longest_run\<close> the greatest such
  number over all starting points.\<close>

fun lead_run :: "bool list \<Rightarrow> nat" where
  "lead_run [] = 0"
| "lead_run (b # bs) = (if b then Suc (lead_run bs) else 0)"

fun longest_run :: "bool list \<Rightarrow> nat" where
  "longest_run [] = 0"
| "longest_run (b # bs) = max (lead_run (b # bs)) (longest_run bs)"

subsection \<open>The calendar grid\<close>

record heat_row =
  hm_day :: date
  hm_day_num :: "int option"
  hm_done :: "int option"
  hm_due :: int
  hm_dow :: int
  hm_week :: int

definition heat_cell ::
  "habit \<Rightarrow> (string \<rightharpoonup> int) \<Rightarrow> date \<Rightarrow> date \<Rightarrow> date \<Rightarrow> date \<Rightarrow> heat_row" where
  "heat_cell habit lookup month_start month_end first_monday d =
     (let due = (if is_due_on habit d \<and> (month_start \<le> d \<and> d \<le> month_end) then 1 else 0);
          done_v = (if due \<noteq> 0 then lookup (isoformat d) else None);
          week = (d - first_monday) div 7
      in \<lparr> hm_day = d,
           hm_day_num = (if month_start \<le> d \<and> d \<le> month_end
                         then Some (snd (snd (ord2ymd d))) else None),
           hm_done = done_v,
           hm_due = due,
           hm_dow = weekday d,
           hm_week = week \<rparr>)"

definition heatmap_frame ::
  "habit \<Rightarrow> checkin list \<Rightarrow> date \<Rightarrow> date \<Rightarrow> py_error + heat_row list" where
  "heatmap_frame habit checkins month_start month_end =
     (let lookup = checkin_lookup checkins
      in case date_add month_start (- weekday month_start) of
           Inl e \<Rightarrow> Inl e
         | Inr first_monday \<Rightarrow>
             (case daterange first_monday month_end of
                Inl e \<Rightarrow> Inl e
              | Inr days \<Rightarrow>
                  Inr (map (heat_cell habit lookup month_start month_end first_monday) days)))"

subsection \<open>The store: \<^verbatim>\<open>db.py\<close>\<close>

text \<open>
  The tables \<^verbatim>\<open>habits\<close> and \<^verbatim>\<open>checkins\<close> of \<^verbatim>\<open>init_db\<close>, as lists of rows, with the
  \<^verbatim>\<open>AUTOINCREMENT\<close> counters of both. A row of \<^verbatim>\<open>habits\<close> is a \<open>habit\<close>.
  A connection carries the engine's per-connection setting \<^verbatim>\<open>foreign_keys\<close>. SQLite
  keeps that setting in the connection, not in the database file, and a new connection
  starts with it off; \<^verbatim>\<open>ON DELETE CASCADE\<close> and the check of the parent row on insert act
  only on a connection that has it on.
  An \<^verbatim>\<open>INSERT\<close> into an \<^verbatim>\<open>AUTOINCREMENT\<close> table takes the next id from the counter
  before it looks for a conflict, so every such statement that succeeds advances the
  counter, also one that ends in \<^verbatim>\<open>DO UPDATE\<close>; with the counter at the largest id the
  statement fails (\<^verbatim>\<open>sqlite3.OperationalError\<close>, database or disk is full).
\<close>

definition MAX_ROWID :: int where
  "MAX_ROWID = 2 ^ 63 - 1"

text \<open>The ints that the \<^verbatim>\<open>sqlite3\<close> module binds to a parameter.\<close>

definition sqlite_int :: "int \<Rightarrow> bool" where
  "sqlite_int i = (- (2 ^ 63) \<le> i \<and> i \<le> 2 ^ 63 - 1)"

record checkin_row =
  ck_id :: int
  ck_habit_id :: int
  ck_day :: string
  ck_done :: int
  ck_note :: string
  ck_created_at :: string

record database =
  habits_tbl :: "habit list"
  checkins_tbl :: "checkin_row list"
  habits_seq :: int
  checkins_seq :: int

record connection =
  foreign_keys :: bool

text \<open>\<^verbatim>\<open>sqlite3.connect(db_path, ...)\<close> in \<^verbatim>\<open>connect\<close>: no statement of \<^verbatim>\<open>connect\<close> touches
  the setting.\<close>

definition connect :: connection where
  "connect = \<lparr> foreign_keys = False \<rparr>"

text \<open>\<^verbatim>\<open>with connect(db_path) as conn: body\<close>: the body runs on a fresh connection; its
  changes are committed when it ends without an exception, and without a commit the
  database is as before. The connection is closed in both cases.\<close>

definition with_connect ::
  "(connection \<Rightarrow> database \<Rightarrow> py_error + connection \<times> database) \<Rightarrow> database
     \<Rightarrow> py_error + database" where
  "with_connect body db =
     (case body connect db of
        Inl e \<Rightarrow> Inl e
      | Inr (conn, db') \<Rightarrow> Inr db')"

text \<open>\<^verbatim>\<open>init_db\<close>: the three \<^verbatim>\<open>CREATE TABLE IF NOT EXISTS\<close> leave existing tables as they
  are; \<^verbatim>\<open>PRAGMA foreign_keys = ON\<close> sets the flag of this connection.\<close>

definition init_db :: "database \<Rightarrow> py_error + database" where
  "init_db db = with_connect (\<lambda>conn db. Inr (conn\<lparr> foreign_keys := True \<rparr>, db)) db"

text \<open>\<^verbatim>\<open>INSERT INTO habits (...)\<close> of \<^verbatim>\<open>create_habit\<close>; \<^verbatim>\<open>name\<close> is \<^verbatim>\<open>UNIQUE\<close>.\<close>

definition sql_insert_habit ::
  "string \<Rightarrow> string \<Rightarrow> string \<Rightarrow> string \<Rightarrow> string \<Rightarrow> connection \<Rightarrow> database
     \<Rightarrow> py_error + connection \<times> database" where
  "sql_insert_habit nm descr st cd created conn db =
     (if MAX_ROWID \<le> habits_seq db then Inl OperationalError
      else if \<exists>h \<in> set (habits_tbl db). name h = nm then Inl IntegrityError
      else Inr (conn,
             db\<lparr> habits_tbl :=
                   habits_tbl db @
                     [\<lparr> id_h = habits_seq db + 1, name = nm, description = descr,
                        schedule_type = Some st, custom_days = Some cd,
                        created_at = created \<rparr>],
                 habits_seq := habits_seq db + 1 \<rparr>))"

definition create_habit ::
  "string \<Rightarrow> string \<Rightarrow> string \<Rightarrow> string \<Rightarrow> string \<Rightarrow> database \<Rightarrow> py_error + database" where
  "create_habit nm descr st cd created db =
     with_connect (sql_insert_habit (strip nm) (strip descr) st (strip cd) created) db"

text \<open>\<^verbatim>\<open>UPDATE habits SET ... WHERE id = ?\<close> of \<^verbatim>\<open>update_habit\<close>.\<close>

definition sql_update_habit ::
  "int \<Rightarrow> string \<Rightarrow> string \<Rightarrow> string \<Rightarrow> string \<Rightarrow> connection \<Rightarrow> database
     \<Rightarrow> py_error + connection \<times> database" where
  "sql_update_habit habit_id nm descr st cd conn db =
     (if (\<exists>h \<in> set (habits_tbl db). id_h h = habit_id)
         \<and> (\<exists>h \<in> set (habits_tbl db). id_h h \<noteq> habit_id \<and> name h = nm)
      then Inl IntegrityError
      else Inr (conn,
             db\<lparr> habits_tbl :=
                   map (\<lambda>h. if id_h h = habit_id
                             then h\<lparr> name := nm, description := descr,
                                     schedule_type := Some st, custom_days := Some cd \<rparr>
                             else h)
                       (habits_tbl db) \<rparr>))"

definition update_habit ::
  "int \<Rightarrow> string \<Rightarrow> string \<Rightarrow> string \<Rightarrow> string \<Rightarrow> database \<Rightarrow> py_error + database" where
  "update_habit habit_id nm descr st cd db =
     (if \<not> sqlite_int habit_id then Inl OverflowError
      else with_connect (sql_update_habit habit_id (strip nm) (strip descr) st (strip cd)) db)"

text \<open>\<^verbatim>\<open>DELETE FROM habits WHERE id = ?\<close>, with the cascade to \<^verbatim>\<open>checkins\<close> of the schema
  for each deleted habit row.\<close>

definition sql_delete_habit ::
  "int \<Rightarrow> connection \<Rightarrow> database \<Rightarrow> py_error + connection \<times> database" where
  "sql_delete_habit habit_id conn db =
     (let deleted = filter (\<lambda>h. id_h h = habit_id) (habits_tbl db);
          kept = filter (\<lambda>h. id_h h \<noteq> habit_id) (habits_tbl db);
          children =
            (if foreign_keys conn \<and> deleted \<noteq> []
             then filter (\<lambda>c. ck_habit_id c \<noteq> habit_id) (checkins_tbl db)
             else checkins_tbl db)
      in Inr (conn, db\<lparr> habits_tbl := kept, checkins_tbl := children \<rparr>))"

definition delete_habit :: "int \<Rightarrow> database \<Rightarrow> py_error + database" where
  "delete_habit habit_id db =
     (if \<not> sqlite_int habit_id then Inl OverflowError
      else with_connect (sql_delete_habit habit_id) db)"

text \<open>\<^verbatim>\<open>INSERT INTO checkins ... ON CONFLICT(habit_id, day) DO UPDATE SET done=excluded.done,
  note=excluded.note\<close>: a row of the pair is updated in place; without one a row is
  inserted, which a connection with \<^verbatim>\<open>foreign_keys\<close> on refuses for a missing habit.\<close>

definition sql_upsert_checkin ::
  "int \<Rightarrow> string \<Rightarrow> int \<Rightarrow> string \<Rightarrow> string \<Rightarrow> connection \<Rightarrow> database
     \<Rightarrow> py_error + connection \<times> database" where
  "sql_upsert_checkin habit_id dy done_v note_v created conn db =
     (if MAX_ROWID \<le> checkins_seq db then Inl OperationalError
      else if \<exists>c \<in> set (checkins_tbl db). ck_habit_id c = habit_id \<and> ck_day c = dy
      then Inr (conn,
             db\<lparr> checkins_tbl :=
                   map (\<lambda>c. if ck_habit_id c = habit_id \<and> ck_day c = dy
                             then c\<lparr> ck_done := done_v, ck_note := note_v \<rparr> else c)
                       (checkins_tbl db),
                 checkins_seq := checkins_seq db + 1 \<rparr>)
      else if foreign_keys conn \<and> \<not> (\<exists>h \<in> set (habits_tbl db). id_h h = habit_id)
      then Inl IntegrityError
      else Inr (conn,
             db\<lparr> checkins_tbl :=
                   checkins_tbl db @
                     [\<lparr> ck_id = checkins_seq db + 1, ck_habit_id = habit_id, ck_day = dy,
                        ck_done = done_v, ck_note = note_v, ck_created_at = created \<rparr>],
                 checkins_seq := checkins_seq db + 1 \<rparr>))"

definition upsert_checkin ::
  "int \<Rightarrow> string \<Rightarrow> bool \<Rightarrow> string \<Rightarrow> string \<Rightarrow> database \<Rightarrow> py_error + database" where
  "upsert_checkin habit_id dy done_b note_v created db =
     (if \<not> sqlite_int habit_id then Inl OverflowError
      else with_connect
             (sql_upsert_checkin habit_id dy (if done_b then 1 else 0) (strip note_v) created)
             db)"

text \<open>\<^verbatim>\<open>SELECT day, done, note FROM checkins WHERE habit_id = ? ORDER BY day\<close>, each row as
  a dict, for a \<open>habit_id\<close> that the module can bind (\<open>sqlite_int\<close>).\<close>

definition list_checkins_for_habit :: "int \<Rightarrow> database \<Rightarrow> checkin list" where
  "list_checkins_for_habit habit_id db =
     sort_key day
       (map (\<lambda>c. \<lparr> day = ck_day c, done_c = Some (ck_done c), note_c = ck_note c \<rparr>)
            (filter (\<lambda>c. ck_habit_id c = habit_id) (checkins_tbl db)))"

text \<open>The \<^verbatim>\<open>UNIQUE(habit_id, day)\<close> constraint of the schema, as a predicate on the table.\<close>

definition unique_checkins :: "database \<Rightarrow> bool" where
  "unique_checkins db = distinct (map (\<lambda>c. (ck_habit_id c, ck_day c)) (checkins_tbl db))"

definition rows_for :: "int \<Rightarrow> string \<Rightarrow> database \<Rightarrow> checkin_row list" where
  "rows_for habit_id dy db =
     filter (\<lambda>c. ck_habit_id c = habit_id \<and> ck_day c = dy) (checkins_tbl db)"

text \<open>The stores the application can be in: the empty tables of a first \<^verbatim>\<open>init_db\<close>,
  then any sequence of the writing operations of \<^verbatim>\<open>db.py\<close> on these two tables.\<close>

definition empty_db :: database where
  "empty_db = \<lparr> habits_tbl = [], checkins_tbl = [], habits_seq = 0, checkins_seq = 0 \<rparr>"

inductive reachable :: "database \<Rightarrow> bool" where
  reach_empty: "reachable empty_db"
| reach_init: "reachable db \<Longrightarrow> init_db db = Inr db' \<Longrightarrow> reachable db'"
| reach_create:
    "reachable db \<Longrightarrow> create_habit nm descr st cd created db = Inr db' \<Longrightarrow> reachable db'"
| reach_update:
    "reachable db \<Longrightarrow> update_habit habit_id nm descr st cd db = Inr db' \<Longrightarrow> reachable db'"
| reach_delete: "reachable db \<Longrightarrow> delete_habit habit_id db = Inr db' \<Longrightarrow> reachable db'"
| reach_upsert:
    "reachable db \<Longrightarrow> upsert_checkin habit_id dy done_b note_v created db = Inr db'
       \<Longrightarrow> reachable db'"

subsection \<open>The month frame of the dashboard\<close>









subsection \<open>Example data\<close>

text \<open>A habit due on working days, one that is never due, and a daily one; the week from
  Monday 2024-01-01 (ordinal 738886) to Sunday 2024-01-07 (ordinal 738892) with check-ins
  done on Monday, Tuesday, Thursday and Friday and a check-in not done on Wednesday.\<close>

definition ex_weekdays :: habit where
  "ex_weekdays = \<lparr> id_h = 1, name = ''Walk'', description = [],
       schedule_type = Some ''weekdays'', custom_days = Some [],
       created_at = ''2024-01-01T08:00:00'' \<rparr>"

definition ex_never :: habit where
  "ex_never = \<lparr> id_h = 2, name = ''Rest'', description = [],
       schedule_type = Some ''custom'', custom_days = Some [],
       created_at = ''2024-01-01T08:00:00'' \<rparr>"

definition ex_daily :: habit where
  "ex_daily = \<lparr> id_h = 3, name = ''Read'', description = [],
       schedule_type = Some ''daily'', custom_days = Some [],
       created_at = ''2024-01-01T08:00:00'' \<rparr>"

definition ex_week :: "checkin list" where
  "ex_week =
     [\<lparr> day = ''2024-01-01'', done_c = Some 1, note_c = [] \<rparr>,
      \<lparr> day = ''2024-01-02'', done_c = Some 1, note_c = [] \<rparr>,
      \<lparr> day = ''2024-01-03'', done_c = Some 0, note_c = [] \<rparr>,
      \<lparr> day = ''2024-01-04'', done_c = Some 1, note_c = [] \<rparr>,
      \<lparr> day = ''2024-01-05'', done_c = Some 1, note_c = [] \<rparr>]"

text \<open>Done check-ins on the first three days of the calendar, 0001-01-01 to 0001-01-03
  (ordinals 1 to 3).\<close>

definition ex_first_days :: "checkin list" where
  "ex_first_days =
     [\<lparr> day = ''0001-01-01'', done_c = Some 1, note_c = [] \<rparr>,
      \<lparr> day = ''0001-01-02'', done_c = Some 1, note_c = [] \<rparr>,
      \<lparr> day = ''0001-01-03'', done_c = Some 1, note_c = [] \<rparr>]"


section \<open>Properties\<close>

subsection \<open>Evaluation of the example data\<close>

lemma ex_week_days:
  "[738886..738892] = [738886, 738887, 738888, 738889, 738890, 738891, 738892]"
  by code_simp

lemma ex_week_iso:
  "map isoformat [738886, 738887, 738888, 738889, 738890, 738891, 738892] =
     [''2024-01-01'', ''2024-01-02'', ''2024-01-03'', ''2024-01-04'', ''2024-01-05'',
      ''2024-01-06'', ''2024-01-07'']"
  by code_simp

lemma ex_week_valid:
  "valid_date 738886" "valid_date 738892" "738892 < MAXORDINAL"
  by (simp_all add: valid_date_def MINORDINAL_def MAXORDINAL_def)

lemma ex_weekdays_due:
  "filter (is_due_on ex_weekdays) [738886..738892] = [738886, 738887, 738888, 738889, 738890]"
  by (simp add: ex_week_days is_due_on_def ex_weekdays_def weekday_def)


lemma ex_never_due: "\<not> is_due_on ex_never d"
  by (simp add: ex_never_def is_due_on_def parse_custom_days_def strip_def)

subsection \<open>Date ranges\<close>

lemma daterange_loop_eq:
  "0 \<le> cur \<Longrightarrow>
   daterange_loop cur end_d days =
     (if end_d < cur then Inr days
      else if end_d < MAXORDINAL then Inr (days @ [cur..end_d])
      else Inl OverflowError)"
proof (induction cur end_d days rule: daterange_loop.induct)
  case (1 cur end_d days)
  show ?case
  proof (cases "cur \<le> end_d")
    case False
    then show ?thesis by (subst daterange_loop.simps) simp
  next
    case True
    show ?thesis
    proof (cases "cur + 1 \<le> MAXORDINAL")
      case False
      with True 1(2) show ?thesis
        by (subst daterange_loop.simps) (simp add: date_add_def MINORDINAL_def)
    next
      case le: True
      then have da: "date_add cur 1 = Inr (cur + 1)"
        using 1(2) by (simp add: date_add_def MINORDINAL_def)
      have ih: "daterange_loop (cur + 1) end_d (days @ [cur]) =
          (if end_d < cur + 1 then Inr (days @ [cur])
           else if end_d < MAXORDINAL then Inr ((days @ [cur]) @ [cur + 1..end_d])
           else Inl OverflowError)"
        using 1(1)[OF True da] 1(2) by simp
      have up: "[cur..end_d] = cur # [cur + 1..end_d]"
        using True by (simp add: upto_rec1)
      show ?thesis
        using True da ih up le by (subst daterange_loop.simps) auto
    qed
  qed
qed

lemma daterange_eq:
  "valid_date start \<Longrightarrow>
   daterange start end_d =
     (if end_d < start then Inr []
      else if end_d < MAXORDINAL then Inr [start..end_d]
      else Inl OverflowError)"
  by (simp add: daterange_def daterange_loop_eq valid_date_def MINORDINAL_def)

lemma daterange_ok:
  "valid_date start \<Longrightarrow> end_d < MAXORDINAL \<or> end_d < start \<Longrightarrow>
   daterange start end_d = Inr [start..end_d]"
  by (auto simp: daterange_eq)

subsection \<open>True division\<close>




















subsection \<open>Success rate\<close>





subsection \<open>Current streak\<close>

lemma streak_loop_total: "\<exists>r. streak_loop habit lookup today cur streak = Some r"
proof (induction "nat cur" arbitrary: cur streak rule: less_induct)
  case less
  show ?case
  proof (cases "date_add cur (- 1)")
    case (Inl e)
    then show ?thesis by (subst streak_loop.simps) simp
  next
    case (Inr cur')
    then have "nat cur' < nat cur"
      by (auto simp: date_add_def MINORDINAL_def split: if_splits)
    then have ih: "\<And>s. \<exists>r. streak_loop habit lookup today cur' s = Some r"
      using less by blast
    show ?thesis
      using Inr ih by (subst streak_loop.simps) simp
  qed
qed

lemma streak_loop_guard:
  "\<not> is_due_on habit cur \<Longrightarrow> date_add cur (- 1) = Inr cur' \<Longrightarrow> today - cur' > 60 \<Longrightarrow>
   streak_loop habit lookup today cur 0 = Some (Inr 0)"
  by (subst streak_loop.simps) simp

lemma no_due_walk:
  assumes nd: "\<forall>d. \<not> is_due_on habit d"
    and lo: "MINORDINAL \<le> today - 61" and hi: "today \<le> MAXORDINAL"
  shows "today - 60 \<le> cur \<Longrightarrow> cur \<le> today \<Longrightarrow>
         streak_loop habit lookup today cur 0 = Some (Inr 0)"
proof (induction "nat (cur - (today - 60))" arbitrary: cur rule: less_induct)
  case less
  have da: "date_add cur (- 1) = Inr (cur - 1)"
    using less.prems lo hi by (simp add: date_add_def)
  show ?case
  proof (cases "cur = today - 60")
    case True
    then show ?thesis using nd da by (subst streak_loop.simps) simp
  next
    case False
    then have "streak_loop habit lookup today (cur - 1) 0 = Some (Inr 0)"
      using less.prems by (intro less.hyps) auto
    then show ?thesis using nd da by (subst streak_loop.simps) simp
  qed
qed

lemma no_due_overflow:
  assumes nd: "\<forall>d. \<not> is_due_on habit d"
    and hi: "today \<le> 61"
  shows "MINORDINAL \<le> cur \<Longrightarrow> cur \<le> today \<Longrightarrow>
         streak_loop habit lookup today cur 0 = Some (Inl OverflowError)"
proof (induction "nat cur" arbitrary: cur rule: less_induct)
  case less
  show ?case
  proof (cases "cur = MINORDINAL")
    case True
    then show ?thesis using nd by (subst streak_loop.simps) (simp add: date_add_def)
  next
    case False
    then have da: "date_add cur (- 1) = Inr (cur - 1)"
      using less.prems hi by (simp add: date_add_def MAXORDINAL_def)
    have "streak_loop habit lookup today (cur - 1) 0 = Some (Inl OverflowError)"
      using less.prems False by (intro less.hyps) (auto simp: MINORDINAL_def)
    then show ?thesis
      using nd da less.prems hi False
      by (subst streak_loop.simps) (simp add: MINORDINAL_def)
  qed
qed

text \<open>
  C3, as stated: for a habit that is due on no day, \<^verbatim>\<open>current_streak\<close> is 0 for every
  \<^verbatim>\<open>today\<close>. It fails for a \<^verbatim>\<open>today\<close> in the first 61 days of the calendar: on
  0001-01-05 (ordinal 5) the walk reaches \<^verbatim>\<open>date.min\<close> before the guard can fire, and the
  next \<^verbatim>\<open>cur -= timedelta(days=1)\<close> raises \<^verbatim>\<open>OverflowError\<close>.
\<close>

theorem current_streak_raises_near_date_min:
  "current_streak \<lparr> id_h = 2, name = ''Rest'', description = [],
                     schedule_type = Some ''custom'', custom_days = Some [],
                     created_at = ''2024-01-01T08:00:00'' \<rparr> [] 5
   = Some (Inl OverflowError)"
  by (simp add: current_streak_def streak_loop.simps is_due_on_def parse_custom_days_def
        strip_def date_add_def MINORDINAL_def MAXORDINAL_def)

text \<open>
  C3, amended. The guard: when the walk skips a day that is not due with the streak still
  0 and the day it moves to is more than 60 days before \<^verbatim>\<open>today\<close>, the loop returns 0.
  For a habit that is due on no day and a \<^verbatim>\<open>today\<close> at least 61 days after \<^verbatim>\<open>date.min\<close>
  (0001-01-01), \<^verbatim>\<open>current_streak\<close> is 0; for an earlier \<^verbatim>\<open>today\<close> the walk leaves the
  date range and \<^verbatim>\<open>OverflowError\<close> is raised.
\<close>

theorem current_streak_no_due_days:
  "(\<not> is_due_on habit cur \<and> date_add cur (- 1) = Inr cur' \<and> today - cur' > 60
      \<longrightarrow> streak_loop habit lookup today cur 0 = Some (Inr 0))
   \<and> ((\<forall>d. \<not> is_due_on habit d) \<and> valid_date today \<and> MINORDINAL + 61 \<le> today
      \<longrightarrow> current_streak habit checkins today = Some (Inr 0))
   \<and> ((\<forall>d. \<not> is_due_on habit d) \<and> valid_date today \<and> today < MINORDINAL + 61
      \<longrightarrow> current_streak habit checkins today = Some (Inl OverflowError))"
proof (intro conjI impI)
  assume "\<not> is_due_on habit cur \<and> date_add cur (- 1) = Inr cur' \<and> today - cur' > 60"
  then show "streak_loop habit lookup today cur 0 = Some (Inr 0)"
    by (simp add: streak_loop_guard)
next
  assume a: "(\<forall>d. \<not> is_due_on habit d) \<and> valid_date today \<and> MINORDINAL + 61 \<le> today"
  then show "current_streak habit checkins today = Some (Inr 0)"
    unfolding current_streak_def
    by (intro no_due_walk) (auto simp: valid_date_def)
next
  assume a: "(\<forall>d. \<not> is_due_on habit d) \<and> valid_date today \<and> today < MINORDINAL + 61"
  then show "current_streak habit checkins today = Some (Inl OverflowError)"
    unfolding current_streak_def
    by (intro no_due_overflow) (auto simp: valid_date_def MINORDINAL_def)
qed

theorem current_streak_no_due_days_witness:
  "current_streak ex_never ex_week 738892 = Some (Inr 0)
   \<and> streak_loop ex_never (checkin_lookup ex_week) 738892 738832 0 = Some (Inr 0)
   \<and> current_streak ex_never ex_week 61 = Some (Inl OverflowError)"
proof -
  have nd: "\<forall>d. \<not> is_due_on ex_never d"
    by (simp add: ex_never_due)
  have g: "\<not> is_due_on ex_never 738832 \<and> date_add 738832 (- 1) = Inr 738831
             \<and> (738892::int) - 738831 > 60"
    by (simp add: ex_never_due date_add_def MINORDINAL_def MAXORDINAL_def)
  have v: "valid_date 738892 \<and> MINORDINAL + 61 \<le> 738892"
    by (simp add: ex_week_valid MINORDINAL_def)
  have w: "valid_date 61 \<and> 61 < MINORDINAL + 61"
    by (simp add: valid_date_def MINORDINAL_def MAXORDINAL_def)
  show ?thesis
    using current_streak_no_due_days
            [of ex_never 738832 738831 738892 "checkin_lookup ex_week" ex_week]
          current_streak_no_due_days
            [of ex_never 738832 738831 61 "checkin_lookup ex_week" ex_week]
          nd g v w
    by blast
qed

lemma is_due_on_weekday:
  "weekday d = weekday e \<Longrightarrow> is_due_on habit d = is_due_on habit e"
  by (simp add: is_due_on_def)

lemma weekday_shift: "weekday (lo + (d - lo) mod 7) = weekday d"
proof -
  have "(lo + (d - lo) mod 7 + 6) mod 7 = ((lo + 6) + (d - lo)) mod 7"
    by (metis add.assoc add.commute mod_add_right_eq)
  also have "(lo + 6) + (d - lo) = d + 6" by simp
  finally show ?thesis by (simp add: weekday_def)
qed

lemma due_within_week:
  assumes "is_due_on habit d"
  shows "\<exists>e. lo \<le> e \<and> e < lo + 7 \<and> is_due_on habit e"
proof -
  define e where "e = lo + (d - lo) mod 7"
  have "weekday e = weekday d"
    unfolding e_def by (rule weekday_shift)
  then have "is_due_on habit e"
    using assms is_due_on_weekday by blast
  moreover have "0 \<le> (d - lo) mod 7" "(d - lo) mod 7 < 7"
    by simp_all
  then have "lo \<le> e \<and> e < lo + 7"
    unfolding e_def by linarith
  ultimately show ?thesis by blast
qed

lemma guard_silent:
  assumes due: "is_due_on habit d"
    and none: "filter (is_due_on habit) [cur + 1..today] = []"
  shows "\<not> today - cur \<ge> 7"
proof
  assume far: "today - cur \<ge> 7"
  obtain e where e: "cur + 1 \<le> e" "e < cur + 1 + 7" "is_due_on habit e"
    using due_within_week[OF due, of "cur + 1"] by blast
  have "e \<le> today" using far e(2) by linarith
  then have "e \<in> set [cur + 1..today]" using e(1) by simp
  then have "e \<in> set (filter (is_due_on habit) [cur + 1..today])"
    using e(3) by simp
  then show False unfolding none by simp
qed

lemma count_due_step:
  "cur \<le> today \<Longrightarrow>
   int (length (filter (is_due_on habit) [cur..today])) =
     (if is_due_on habit cur then 1 else 0)
     + int (length (filter (is_due_on habit) [cur + 1..today]))"
  by (subst upto_rec1) simp_all

lemma streak_loop_skip:
  assumes "\<not> is_due_on habit cur" and "date_add cur (- 1) = Inr cur'"
    and g: "\<not> (streak = 0 \<and> today - cur' > 60)"
  shows "streak_loop habit lookup today cur streak = streak_loop habit lookup today cur' streak"
  by (subst streak_loop.simps) (simp add: assms(1,2) if_not_P[OF g] split del: if_split)

lemma streak_loop_done:
  assumes "is_due_on habit cur" and "dict_get lookup (isoformat cur) 0 = 1"
    and "date_add cur (- 1) = Inr cur'"
  shows "streak_loop habit lookup today cur streak
           = streak_loop habit lookup today cur' (streak + 1)"
  by (subst streak_loop.simps) (simp add: assms)

lemma streak_loop_break:
  assumes "is_due_on habit cur" and "dict_get lookup (isoformat cur) 0 \<noteq> 1"
  shows "streak_loop habit lookup today cur streak = Some (Inr streak)"
  by (subst streak_loop.simps) (simp add: assms)

lemma streak_loop_floor:
  assumes "date_add cur (- 1) = Inl e"
    and "is_due_on habit cur \<longrightarrow> dict_get lookup (isoformat cur) 0 = 1"
  shows "streak_loop habit lookup today cur streak = Some (Inl e)"
  by (subst streak_loop.simps) (simp add: assms)

lemma walk_to_miss:
  assumes d: "MINORDINAL \<le> d" and hi: "today \<le> MAXORDINAL"
    and due: "is_due_on habit d" and miss: "dict_get lookup (isoformat d) 0 \<noteq> 1"
    and later: "\<forall>e. d < e \<and> e \<le> today \<and> is_due_on habit e
                  \<longrightarrow> dict_get lookup (isoformat e) 0 = 1"
  shows "d \<le> cur \<Longrightarrow> cur \<le> today \<Longrightarrow>
     streak_loop habit lookup today cur
        (int (length (filter (is_due_on habit) [cur + 1..today])))
     = Some (Inr (int (length (filter (is_due_on habit) [d + 1..today]))))"
proof (induction "nat (cur - d)" arbitrary: cur rule: less_induct)
  case less
  show ?case
  proof (cases "cur = d")
    case True
    then show ?thesis using due miss by (simp add: streak_loop_break)
  next
    case False
    then have gt: "d < cur" using less.prems by simp
    have da: "date_add cur (- 1) = Inr (cur - 1)"
      using gt less.prems d hi by (simp add: date_add_def)
    have ih: "streak_loop habit lookup today (cur - 1)
                (int (length (filter (is_due_on habit) [cur..today])))
              = Some (Inr (int (length (filter (is_due_on habit) [d + 1..today]))))"
      using less.hyps[of "cur - 1"] gt less.prems by simp
    show ?thesis
    proof (cases "is_due_on habit cur")
      case True
      then have dn: "dict_get lookup (isoformat cur) 0 = 1"
        using later gt less.prems by blast
      have c: "int (length (filter (is_due_on habit) [cur..today]))
                 = int (length (filter (is_due_on habit) [cur + 1..today])) + 1"
        using count_due_step[OF less.prems(2), of habit] True by simp
      show ?thesis
        unfolding streak_loop_done[OF True dn da] using ih unfolding c .
    next
      case nd: False
      have c: "int (length (filter (is_due_on habit) [cur..today]))
                 = int (length (filter (is_due_on habit) [cur + 1..today]))"
        using count_due_step[OF less.prems(2), of habit] nd by simp
      have g: "\<not> (int (length (filter (is_due_on habit) [cur + 1..today])) = 0
                   \<and> today - (cur - 1) > 60)"
      proof
        assume "int (length (filter (is_due_on habit) [cur + 1..today])) = 0
                   \<and> today - (cur - 1) > 60"
        then have "filter (is_due_on habit) [cur + 1..today] = []" "today - cur \<ge> 7"
          by simp_all
        then show False using guard_silent[OF due] by blast
      qed
      show ?thesis
        unfolding streak_loop_skip[OF nd da g] using ih unfolding c .
    qed
  qed
qed

lemma walk_all_done:
  assumes hi: "today \<le> MAXORDINAL"
    and due: "is_due_on habit d"
    and all_done: "\<forall>e. MINORDINAL \<le> e \<and> e \<le> today \<and> is_due_on habit e
                  \<longrightarrow> dict_get lookup (isoformat e) 0 = 1"
  shows "MINORDINAL \<le> cur \<Longrightarrow> cur \<le> today \<Longrightarrow>
     streak_loop habit lookup today cur
        (int (length (filter (is_due_on habit) [cur + 1..today])))
     = Some (Inl OverflowError)"
proof (induction "nat cur" arbitrary: cur rule: less_induct)
  case less
  show ?case
  proof (cases "cur = MINORDINAL")
    case True
    then have da: "date_add cur (- 1) = Inl OverflowError"
      by (simp add: date_add_def)
    show ?thesis
    proof (cases "is_due_on habit cur")
      case True
      then have "dict_get lookup (isoformat cur) 0 = 1"
        using all_done less.prems by blast
      then show ?thesis using da by (intro streak_loop_floor) simp_all
    next
      case False
      then show ?thesis using da by (intro streak_loop_floor) simp_all
    qed
  next
    case False
    then have gt: "MINORDINAL < cur" using less.prems by simp
    have da: "date_add cur (- 1) = Inr (cur - 1)"
      using gt less.prems hi by (simp add: date_add_def)
    have ih: "streak_loop habit lookup today (cur - 1)
                (int (length (filter (is_due_on habit) [cur..today])))
              = Some (Inl OverflowError)"
      using less.hyps[of "cur - 1"] gt less.prems by (simp add: MINORDINAL_def)
    show ?thesis
    proof (cases "is_due_on habit cur")
      case True
      then have dn: "dict_get lookup (isoformat cur) 0 = 1"
        using all_done less.prems by blast
      have c: "int (length (filter (is_due_on habit) [cur..today]))
                 = int (length (filter (is_due_on habit) [cur + 1..today])) + 1"
        using count_due_step[OF less.prems(2), of habit] True by simp
      show ?thesis
        unfolding streak_loop_done[OF True dn da] using ih unfolding c .
    next
      case nd: False
      have c: "int (length (filter (is_due_on habit) [cur..today]))
                 = int (length (filter (is_due_on habit) [cur + 1..today]))"
        using count_due_step[OF less.prems(2), of habit] nd by simp
      have g: "\<not> (int (length (filter (is_due_on habit) [cur + 1..today])) = 0
                   \<and> today - (cur - 1) > 60)"
      proof
        assume "int (length (filter (is_due_on habit) [cur + 1..today])) = 0
                   \<and> today - (cur - 1) > 60"
        then have "filter (is_due_on habit) [cur + 1..today] = []" "today - cur \<ge> 7"
          by simp_all
        then show False using guard_silent[OF due] by blast
      qed
      show ?thesis
        unfolding streak_loop_skip[OF nd da g] using ih unfolding c .
    qed
  qed
qed

lemma ex_first_iso:
  "map isoformat [1, 2, 3] = [''0001-01-01'', ''0001-01-02'', ''0001-01-03'']"
  by code_simp

text \<open>
  C10, as stated: \<^verbatim>\<open>current_streak\<close> terminates because either no day is ever due and
  the guard returns 0, or a due day without a done check-in breaks the loop. Neither
  happens for a daily habit with done check-ins on 0001-01-01, 0001-01-02 and 0001-01-03
  and \<^verbatim>\<open>today\<close> = 0001-01-03: every day back to \<^verbatim>\<open>date.min\<close> is due and done, and the
  walk ends with the \<^verbatim>\<open>OverflowError\<close> of \<^verbatim>\<open>cur -= timedelta(days=1)\<close>.
\<close>

theorem current_streak_ends_at_date_min:
  "current_streak \<lparr> id_h = 3, name = ''Read'', description = [],
                     schedule_type = Some ''daily'', custom_days = Some [],
                     created_at = ''2024-01-01T08:00:00'' \<rparr>
                   [\<lparr> day = ''0001-01-01'', done_c = Some 1, note_c = [] \<rparr>,
                    \<lparr> day = ''0001-01-02'', done_c = Some 1, note_c = [] \<rparr>,
                    \<lparr> day = ''0001-01-03'', done_c = Some 1, note_c = [] \<rparr>] 3
   = Some (Inl OverflowError)"
proof -
  define h where "h = \<lparr> id_h = 3, name = ''Read'', description = [],
                     schedule_type = Some ''daily'', custom_days = Some [],
                     created_at = ''2024-01-01T08:00:00'' \<rparr>"
  define lk where "lk = checkin_lookup
                   [\<lparr> day = ''0001-01-01'', done_c = Some 1, note_c = [] \<rparr>,
                    \<lparr> day = ''0001-01-02'', done_c = Some 1, note_c = [] \<rparr>,
                    \<lparr> day = ''0001-01-03'', done_c = Some 1, note_c = [] \<rparr>]"
  have iso: "isoformat 1 = ''0001-01-01''" "isoformat 2 = ''0001-01-02''"
    "isoformat 3 = ''0001-01-03''"
    using ex_first_iso by simp_all
  have due: "\<And>d. is_due_on h d"
    by (simp add: h_def is_due_on_def)
  have dn: "dict_get lk (isoformat 1) 0 = 1" "dict_get lk (isoformat 2) 0 = 1"
    "dict_get lk (isoformat 3) 0 = 1"
    by (simp_all add: iso lk_def dict_get_def checkin_lookup_def)
  have d3: "date_add 3 (- 1) = Inr 2" and d2: "date_add 2 (- 1) = Inr 1"
    and d1: "date_add 1 (- 1) = Inl OverflowError"
    by (simp_all add: date_add_def MINORDINAL_def MAXORDINAL_def)
  have s1: "streak_loop h lk 3 1 (0 + 1 + 1) = Some (Inl OverflowError)"
    using d1 dn(1) by (subst streak_loop.simps) (simp add: due)
  have s2: "streak_loop h lk 3 2 (0 + 1) = streak_loop h lk 3 1 (0 + 1 + 1)"
    using d2 dn(2) by (subst streak_loop.simps) (simp add: due)
  have s3: "streak_loop h lk 3 3 0 = streak_loop h lk 3 2 (0 + 1)"
    using d3 dn(3) by (subst streak_loop.simps) (simp add: due)
  show ?thesis
    unfolding current_streak_def h_def[symmetric] lk_def[symmetric] s3 s2 s1 ..
qed

text \<open>
  C10, amended. \<^verbatim>\<open>current_streak\<close> terminates for every habit record, every check-in
  sequence and every \<^verbatim>\<open>today\<close>, in one of three ways.
  When some due day at or before \<^verbatim>\<open>today\<close> has no done check-in, the latest such day
  breaks the loop, and the result is the number of due days after it (each of them done).
  When no day is ever due and \<^verbatim>\<open>today\<close> is at least 61 days after \<^verbatim>\<open>date.min\<close>, the
  guard returns 0.
  Otherwise (no day is due and \<^verbatim>\<open>today\<close> is earlier than that, or some day is due and
  every due day back to \<^verbatim>\<open>date.min\<close> is done) the walk reaches \<^verbatim>\<open>date.min\<close> and ends
  with \<^verbatim>\<open>OverflowError\<close>.
\<close>

theorem current_streak_outcomes:
  "(\<exists>r. current_streak habit checkins today = Some r)
   \<and> (valid_date today \<longrightarrow>
        (\<forall>d. MINORDINAL \<le> d \<and> d \<le> today \<and> is_due_on habit d
               \<and> dict_get (checkin_lookup checkins) (isoformat d) 0 \<noteq> 1
               \<and> (\<forall>e. d < e \<and> e \<le> today \<and> is_due_on habit e
                      \<longrightarrow> dict_get (checkin_lookup checkins) (isoformat e) 0 = 1)
             \<longrightarrow> current_streak habit checkins today =
                   Some (Inr (int (length (filter (is_due_on habit) [d + 1..today])))))
      \<and> ((\<forall>d. \<not> is_due_on habit d) \<and> MINORDINAL + 61 \<le> today
             \<longrightarrow> current_streak habit checkins today = Some (Inr 0))
      \<and> ((\<forall>d. \<not> is_due_on habit d) \<and> today < MINORDINAL + 61
             \<longrightarrow> current_streak habit checkins today = Some (Inl OverflowError))
      \<and> ((\<exists>d. is_due_on habit d)
           \<and> (\<forall>e. MINORDINAL \<le> e \<and> e \<le> today \<and> is_due_on habit e
                  \<longrightarrow> dict_get (checkin_lookup checkins) (isoformat e) 0 = 1)
             \<longrightarrow> current_streak habit checkins today = Some (Inl OverflowError)))"
proof (intro conjI impI allI)
  show "\<exists>r. current_streak habit checkins today = Some r"
    unfolding current_streak_def by (rule streak_loop_total)
next
  fix d
  assume v: "valid_date today"
  assume a: "MINORDINAL \<le> d \<and> d \<le> today \<and> is_due_on habit d
               \<and> dict_get (checkin_lookup checkins) (isoformat d) 0 \<noteq> 1
               \<and> (\<forall>e. d < e \<and> e \<le> today \<and> is_due_on habit e
                      \<longrightarrow> dict_get (checkin_lookup checkins) (isoformat e) 0 = 1)"
  have "streak_loop habit (checkin_lookup checkins) today today
          (int (length (filter (is_due_on habit) [today + 1..today])))
        = Some (Inr (int (length (filter (is_due_on habit) [d + 1..today]))))"
    using a v by (intro walk_to_miss) (simp_all add: valid_date_def)
  then show "current_streak habit checkins today =
               Some (Inr (int (length (filter (is_due_on habit) [d + 1..today]))))"
    by (simp add: current_streak_def)
next
  assume v: "valid_date today"
  assume a: "(\<forall>d. \<not> is_due_on habit d) \<and> MINORDINAL + 61 \<le> today"
  then show "current_streak habit checkins today = Some (Inr 0)"
    unfolding current_streak_def using v
    by (intro no_due_walk) (auto simp: valid_date_def)
next
  assume v: "valid_date today"
  assume a: "(\<forall>d. \<not> is_due_on habit d) \<and> today < MINORDINAL + 61"
  then show "current_streak habit checkins today = Some (Inl OverflowError)"
    unfolding current_streak_def using v
    by (intro no_due_overflow) (auto simp: valid_date_def MINORDINAL_def)
next
  assume v: "valid_date today"
  assume a: "(\<exists>d. is_due_on habit d)
           \<and> (\<forall>e. MINORDINAL \<le> e \<and> e \<le> today \<and> is_due_on habit e
                  \<longrightarrow> dict_get (checkin_lookup checkins) (isoformat e) 0 = 1)"
  then obtain d where d: "is_due_on habit d" by blast
  have "streak_loop habit (checkin_lookup checkins) today today
          (int (length (filter (is_due_on habit) [today + 1..today])))
        = Some (Inl OverflowError)"
    using a v d by (intro walk_all_done[of today habit d]) (simp_all add: valid_date_def)
  then show "current_streak habit checkins today = Some (Inl OverflowError)"
    by (simp add: current_streak_def)
qed

theorem current_streak_outcomes_witness:
  "current_streak ex_weekdays ex_week 738892 = Some (Inr 2)
   \<and> current_streak ex_never ex_week 738892 = Some (Inr 0)
   \<and> current_streak ex_never ex_week 61 = Some (Inl OverflowError)
   \<and> current_streak ex_daily ex_first_days 3 = Some (Inl OverflowError)"
proof -
  have v: "valid_date 738892" "valid_date 61" "valid_date 3"
    by (simp_all add: valid_date_def MINORDINAL_def MAXORDINAL_def)
  have iso: "isoformat 738888 = ''2024-01-03''" "isoformat 738889 = ''2024-01-04''"
    "isoformat 738890 = ''2024-01-05''"
    using ex_week_iso by simp_all
  have lk: "dict_get (checkin_lookup ex_week) (isoformat 738888) 0 \<noteq> 1"
    "dict_get (checkin_lookup ex_week) (isoformat 738889) 0 = 1"
    "dict_get (checkin_lookup ex_week) (isoformat 738890) 0 = 1"
    unfolding iso by (simp_all add: dict_get_def checkin_lookup_def ex_week_def)
  have days: "[738888 + 1..738892] = [738889, 738890, 738891, 738892]"
    by code_simp
  have due: "is_due_on ex_weekdays 738888" "\<not> is_due_on ex_weekdays 738891"
    "\<not> is_due_on ex_weekdays 738892"
    by (simp_all add: is_due_on_def ex_weekdays_def weekday_def)
  have cnt: "filter (is_due_on ex_weekdays) [738888 + 1..738892] = [738889, 738890]"
    unfolding days by (simp add: is_due_on_def ex_weekdays_def weekday_def)
  have later: "\<forall>e. 738888 < e \<and> e \<le> 738892 \<and> is_due_on ex_weekdays e
                  \<longrightarrow> dict_get (checkin_lookup ex_week) (isoformat e) 0 = 1"
  proof (intro allI impI)
    fix e :: int
    assume a: "738888 < e \<and> e \<le> 738892 \<and> is_due_on ex_weekdays e"
    then have "738888 < e" "e \<le> 738892" by simp_all
    then have "e = 738889 \<or> e = 738890 \<or> e = 738891 \<or> e = 738892"
      by linarith
    then show "dict_get (checkin_lookup ex_week) (isoformat e) 0 = 1"
      using a lk due by blast
  qed
  have a1: "MINORDINAL \<le> 738888 \<and> (738888::int) \<le> 738892 \<and> is_due_on ex_weekdays 738888
      \<and> dict_get (checkin_lookup ex_week) (isoformat 738888) 0 \<noteq> 1
      \<and> (\<forall>e. 738888 < e \<and> e \<le> 738892 \<and> is_due_on ex_weekdays e
             \<longrightarrow> dict_get (checkin_lookup ex_week) (isoformat e) 0 = 1)"
    using lk(1) due(1) later by (simp add: MINORDINAL_def)
  have c1: "current_streak ex_weekdays ex_week 738892
              = Some (Inr (int (length (filter (is_due_on ex_weekdays) [738888 + 1..738892]))))"
    using current_streak_outcomes[of ex_weekdays ex_week 738892] v(1) a1 by blast
  have nd: "\<forall>d. \<not> is_due_on ex_never d"
    by (simp add: ex_never_due)
  have c2: "current_streak ex_never ex_week 738892 = Some (Inr 0)"
    using current_streak_outcomes[of ex_never ex_week 738892] v(1) nd
    by (simp add: MINORDINAL_def)
  have c3: "current_streak ex_never ex_week 61 = Some (Inl OverflowError)"
    using current_streak_outcomes[of ex_never ex_week 61] v(2) nd
    by (simp add: MINORDINAL_def)
  have dd: "\<And>d. is_due_on ex_daily d"
    by (simp add: is_due_on_def ex_daily_def)
  have first: "\<forall>e. MINORDINAL \<le> e \<and> e \<le> 3 \<and> is_due_on ex_daily e
                  \<longrightarrow> dict_get (checkin_lookup ex_first_days) (isoformat e) 0 = 1"
  proof (intro allI impI)
    fix e :: int
    assume "MINORDINAL \<le> e \<and> e \<le> 3 \<and> is_due_on ex_daily e"
    then have "1 \<le> e" "e \<le> 3" by (simp_all add: MINORDINAL_def)
    then have "e = 1 \<or> e = 2 \<or> e = 3"
      by linarith
    then show "dict_get (checkin_lookup ex_first_days) (isoformat e) 0 = 1"
      using ex_first_iso
      by (auto simp: dict_get_def checkin_lookup_def ex_first_days_def)
  qed
  have c4: "current_streak ex_daily ex_first_days 3 = Some (Inl OverflowError)"
    using current_streak_outcomes[of ex_daily ex_first_days 3] v(3) dd first by blast
  show ?thesis
    unfolding c1 cnt c2 c3 c4 by simp
qed

subsection \<open>Longest streak\<close>

lemma lead_le_longest: "lead_run bs \<le> longest_run bs"
  by (cases bs) auto

lemma longest_step_skip:
  "\<not> is_due_on habit d \<Longrightarrow> longest_step habit lookup d (L, c) = (L, c)"
  by (simp add: longest_step_def)

lemma longest_step_done:
  "is_due_on habit d \<Longrightarrow> dict_get lookup (isoformat d) 0 = 1 \<Longrightarrow>
   longest_step habit lookup d (L, c) = (max L (c + 1), c + 1)"
  by (simp add: longest_step_def)

lemma longest_step_missed:
  "is_due_on habit d \<Longrightarrow> dict_get lookup (isoformat d) 0 \<noteq> 1 \<Longrightarrow>
   longest_step habit lookup d (L, c) = (L, 0)"
  by (simp add: longest_step_def)

lemma fold_longest_step:
  "0 \<le> c \<Longrightarrow> c \<le> L \<Longrightarrow>
   fst (fold (longest_step habit lookup) days (L, c)) =
     max L (max (c + int (lead_run (map (\<lambda>d. dict_get lookup (isoformat d) 0 = 1)
                                     (filter (is_due_on habit) days))))
                (int (longest_run (map (\<lambda>d. dict_get lookup (isoformat d) 0 = 1)
                                     (filter (is_due_on habit) days)))))"
proof (induction days arbitrary: L c)
  case Nil
  then show ?case by simp
next
  case (Cons d days)
  let ?bs = "map (\<lambda>d. dict_get lookup (isoformat d) 0 = 1) (filter (is_due_on habit) days)"
  have ll: "int (lead_run ?bs) \<le> int (longest_run ?bs)"
    using lead_le_longest[of ?bs] by simp
  show ?case
  proof (cases "is_due_on habit d")
    case False
    then show ?thesis using Cons by (simp add: longest_step_skip)
  next
    case due: True
    show ?thesis
    proof (cases "dict_get lookup (isoformat d) 0 = 1")
      case True
      have ih: "fst (fold (longest_step habit lookup) days (max L (c + 1), c + 1)) =
            max (max L (c + 1)) (max (c + 1 + int (lead_run ?bs)) (int (longest_run ?bs)))"
        using Cons.prems by (intro Cons.IH) auto
      have st: "fold (longest_step habit lookup) (d # days) (L, c) =
                fold (longest_step habit lookup) days (max L (c + 1), c + 1)"
        using due True by (simp add: longest_step_done)
      have bs: "map (\<lambda>d. dict_get lookup (isoformat d) 0 = 1)
                    (filter (is_due_on habit) (d # days)) = True # ?bs"
        using due True by simp
      show ?thesis
        unfolding st bs ih using Cons.prems by (simp add: max_def)
    next
      case False
      have ih: "fst (fold (longest_step habit lookup) days (L, 0)) =
            max L (max (0 + int (lead_run ?bs)) (int (longest_run ?bs)))"
        using Cons.prems by (intro Cons.IH) auto
      have st: "fold (longest_step habit lookup) (d # days) (L, c) =
                fold (longest_step habit lookup) days (L, 0)"
        using due False by (simp add: longest_step_missed)
      have bs: "map (\<lambda>d. dict_get lookup (isoformat d) 0 = 1)
                    (filter (is_due_on habit) (d # days)) = False # ?bs"
        using due False by simp
      show ?thesis
        unfolding st bs ih using Cons.prems ll by (simp add: max_def)
    qed
  qed
qed

lemma longest_streak_eq_run:
  assumes "valid_date start" and "end_d < MAXORDINAL \<or> end_d < start"
  shows "longest_streak habit checkins start end_d =
     Inr (int (longest_run (map (\<lambda>d. dict_get (checkin_lookup checkins) (isoformat d) 0 = 1)
                                (filter (is_due_on habit) [start..end_d]))))"
proof -
  have dr: "daterange start end_d = Inr [start..end_d]"
    using assms by (simp add: daterange_ok)
  let ?bs = "map (\<lambda>d. dict_get (checkin_lookup checkins) (isoformat d) 0 = 1)
                 (filter (is_due_on habit) [start..end_d])"
  have "fst (fold (longest_step habit (checkin_lookup checkins)) [start..end_d] (0, 0)) =
     max 0 (max (0 + int (lead_run ?bs)) (int (longest_run ?bs)))"
    by (rule fold_longest_step) simp_all
  moreover have "lead_run ?bs \<le> longest_run ?bs" by (rule lead_le_longest)
  ultimately show ?thesis
    by (simp add: longest_streak_def dr Let_def)
qed

lemma ex_week_flags:
  "map (\<lambda>d. dict_get (checkin_lookup ex_week) (isoformat d) 0 = 1)
       [738886, 738887, 738888, 738889, 738890] = [True, True, False, True, True]"
  using ex_week_iso by (simp add: dict_get_def checkin_lookup_def ex_week_def)

text \<open>
  C6, as stated: for every inclusive range, \<^verbatim>\<open>longest_streak\<close> scans the range forward.
  For a range that ends on \<^verbatim>\<open>date.max\<close> (9999-12-31, ordinal 3652059) nothing is
  scanned: \<^verbatim>\<open>daterange\<close> steps \<^verbatim>\<open>cur += timedelta(days=1)\<close> after the last day, and
  \<^verbatim>\<open>longest_streak\<close> ends with that \<^verbatim>\<open>OverflowError\<close>.
\<close>

theorem longest_streak_raises_at_date_max:
  "longest_streak \<lparr> id_h = 3, name = ''Read'', description = [],
                     schedule_type = Some ''daily'', custom_days = Some [],
                     created_at = ''2024-01-01T08:00:00'' \<rparr> [] 3652059 3652059
   = Inl OverflowError"
proof -
  have "daterange 3652059 3652059 = Inl OverflowError"
    by (simp add: daterange_eq valid_date_def MINORDINAL_def MAXORDINAL_def)
  then show ?thesis by (simp add: longest_streak_def)
qed

text \<open>
  C6, amended. One round of the scan on the state (longest, running counter): a day that
  is not due leaves both as they are; a due day with a done check-in adds 1 to the counter
  and raises the maximum to it; a due day without one sets the counter to 0 and keeps the
  maximum. For every inclusive range that ends before \<^verbatim>\<open>date.max\<close> or is empty,
  \<^verbatim>\<open>longest_streak\<close> returns the result of these rounds over the days of the range in
  order, from the state (0, 0), which is the length of the longest run of done days in the
  sequence of due days; for a nonempty range that ends on \<^verbatim>\<open>date.max\<close> it raises
  \<^verbatim>\<open>OverflowError\<close>. For a weekdays habit with Monday and Tuesday done, Wednesday
  missed, Thursday and Friday done, the result is 2.
\<close>

theorem longest_streak_scan:
  "(\<not> is_due_on habit d \<longrightarrow> longest_step habit lookup d (L, c) = (L, c))
   \<and> (is_due_on habit d \<and> dict_get lookup (isoformat d) 0 = 1
        \<longrightarrow> longest_step habit lookup d (L, c) = (max L (c + 1), c + 1))
   \<and> (is_due_on habit d \<and> dict_get lookup (isoformat d) 0 \<noteq> 1
        \<longrightarrow> longest_step habit lookup d (L, c) = (L, 0))
   \<and> (valid_date start \<and> valid_date end_d \<and> (end_d < MAXORDINAL \<or> end_d < start)
        \<longrightarrow> longest_streak habit checkins start end_d =
              Inr (fst (fold (longest_step habit (checkin_lookup checkins))
                             [start..end_d] (0, 0)))
            \<and> longest_streak habit checkins start end_d =
              Inr (int (longest_run
                     (map (\<lambda>d. dict_get (checkin_lookup checkins) (isoformat d) 0 = 1)
                          (filter (is_due_on habit) [start..end_d])))))
   \<and> (valid_date start \<and> start \<le> end_d \<and> end_d = MAXORDINAL
        \<longrightarrow> longest_streak habit checkins start end_d = Inl OverflowError)"
proof (intro conjI impI)
  assume a: "valid_date start \<and> valid_date end_d \<and> (end_d < MAXORDINAL \<or> end_d < start)"
  then have dr: "daterange start end_d = Inr [start..end_d]"
    by (simp add: daterange_ok)
  show "longest_streak habit checkins start end_d =
          Inr (fst (fold (longest_step habit (checkin_lookup checkins)) [start..end_d] (0, 0)))"
    by (simp add: longest_streak_def dr Let_def)
  show "longest_streak habit checkins start end_d =
          Inr (int (longest_run
                 (map (\<lambda>d. dict_get (checkin_lookup checkins) (isoformat d) 0 = 1)
                      (filter (is_due_on habit) [start..end_d]))))"
    using a by (intro longest_streak_eq_run) simp_all
next
  assume a: "valid_date start \<and> start \<le> end_d \<and> end_d = MAXORDINAL"
  then have "daterange start end_d = Inl OverflowError"
    by (simp add: daterange_eq)
  then show "longest_streak habit checkins start end_d = Inl OverflowError"
    by (simp add: longest_streak_def)
qed (simp_all add: longest_step_def)

theorem longest_streak_scan_witness:
  "longest_streak ex_weekdays ex_week 738886 738892 = Inr 2
   \<and> longest_step ex_weekdays (checkin_lookup ex_week) 738891 (2, 1) = (2, 1)
   \<and> longest_step ex_weekdays (checkin_lookup ex_week) 738887 (1, 1) = (2, 2)
   \<and> longest_step ex_weekdays (checkin_lookup ex_week) 738888 (2, 2) = (2, 0)
   \<and> longest_streak ex_weekdays ex_week 3652053 3652059 = Inl OverflowError"
proof -
  have h: "valid_date 738886 \<and> valid_date 738892
             \<and> (738892 < MAXORDINAL \<or> (738892::int) < 738886)"
    by (simp add: ex_week_valid)
  have iso: "isoformat 738887 = ''2024-01-02''" "isoformat 738888 = ''2024-01-03''"
    using ex_week_iso by simp_all
  have sat: "\<not> is_due_on ex_weekdays 738891"
    by (simp add: is_due_on_def ex_weekdays_def weekday_def)
  have tue: "is_due_on ex_weekdays 738887
               \<and> dict_get (checkin_lookup ex_week) (isoformat 738887) 0 = 1"
    by (simp add: is_due_on_def ex_weekdays_def weekday_def iso dict_get_def
          checkin_lookup_def ex_week_def)
  have wed: "is_due_on ex_weekdays 738888
               \<and> dict_get (checkin_lookup ex_week) (isoformat 738888) 0 \<noteq> 1"
    by (simp add: is_due_on_def ex_weekdays_def weekday_def iso dict_get_def
          checkin_lookup_def ex_week_def)
  have "longest_streak ex_weekdays ex_week 738886 738892 =
          Inr (int (longest_run
                 (map (\<lambda>d. dict_get (checkin_lookup ex_week) (isoformat d) 0 = 1)
                      (filter (is_due_on ex_weekdays) [738886..738892]))))"
    using longest_streak_scan [of ex_weekdays 738891 "checkin_lookup ex_week" 2 1
                                  738886 738892 ex_week] h
    by blast
  then have a: "longest_streak ex_weekdays ex_week 738886 738892 = Inr 2"
    unfolding ex_weekdays_due ex_week_flags by simp
  have b: "longest_step ex_weekdays (checkin_lookup ex_week) 738891 (2, 1) = (2, 1)"
    using longest_streak_scan [of ex_weekdays 738891 "checkin_lookup ex_week" 2 1
                                  738886 738892 ex_week] sat
    by blast
  have c: "longest_step ex_weekdays (checkin_lookup ex_week) 738887 (1, 1) = (max 1 (1 + 1), 1 + 1)"
    using longest_streak_scan [of ex_weekdays 738887 "checkin_lookup ex_week" 1 1
                                  738886 738892 ex_week] tue
    by blast
  have d: "longest_step ex_weekdays (checkin_lookup ex_week) 738888 (2, 2) = (2, 0)"
    using longest_streak_scan [of ex_weekdays 738888 "checkin_lookup ex_week" 2 2
                                  738886 738892 ex_week] wed
    by blast
  have m: "valid_date 3652053 \<and> (3652053::int) \<le> 3652059 \<and> 3652059 = MAXORDINAL"
    by (simp add: valid_date_def MINORDINAL_def MAXORDINAL_def)
  have e: "longest_streak ex_weekdays ex_week 3652053 3652059 = Inl OverflowError"
    using longest_streak_scan [of ex_weekdays 738888 "checkin_lookup ex_week" 2 2
                                  3652053 3652059 ex_week] m
    by blast
  show ?thesis using a b c d e by simp
qed

subsection \<open>Custom weekday sets\<close>


lemma string_to_days_range: "set (string_to_days s) \<subseteq> {0..6}"
  by (auto simp: string_to_days_def Let_def)

text \<open>
  C2. Parsing the \<^verbatim>\<open>custom_days\<close> string is claimed to skip integer tokens outside 0..6, so
  that the parsed weekday set is a subset of {0,...,6}. \<^verbatim>\<open>string_to_days\<close> of the Habits
  page filters the range (\<open>string_to_days_range\<close>); \<^verbatim>\<open>parse_custom_days\<close> of the metrics
  does not: the token \<^verbatim>\<open>7\<close> is kept, and so are a negative token and one written with an
  underscore.
\<close>

theorem parse_custom_days_keeps_out_of_range:
  "parse_custom_days (Some ''7'') = {7}
   \<and> \<not> parse_custom_days (Some ''7'') \<subseteq> {0..6}
   \<and> parse_custom_days (Some ''0, x, -1, 1_0'') = {0, - 1, 10}
   \<and> string_to_days (Some ''0, x, -1, 1_0, 7'') = [0]"
  by code_simp



subsection \<open>The calendar grid of a month\<close>

lemma first_monday:
  assumes "valid_date month_start"
  shows "date_add month_start (- weekday month_start) = Inr (month_start - weekday month_start)"
    and "weekday (month_start - weekday month_start) = 0"
    and "month_start - weekday month_start \<le> month_start"
    and "month_start - (month_start - weekday month_start) < 7"
    and "valid_date (month_start - weekday month_start)"
proof -
  have w: "0 \<le> weekday month_start" "weekday month_start < 7"
    by (simp_all add: weekday_def)
  have lo: "weekday month_start \<le> month_start - 1"
    using assms unfolding weekday_def valid_date_def MINORDINAL_def by presburger
  show v: "valid_date (month_start - weekday month_start)"
    using assms w lo by (simp add: valid_date_def MINORDINAL_def)
  then show "date_add month_start (- weekday month_start) = Inr (month_start - weekday month_start)"
    by (simp add: date_add_def valid_date_def)
  show "weekday (month_start - weekday month_start) = 0"
    unfolding weekday_def by presburger
  show "month_start - weekday month_start \<le> month_start" using w by simp
  show "month_start - (month_start - weekday month_start) < 7" using w by simp
qed

lemma heat_cell_day: "hm_day (heat_cell habit lookup ms me fm d) = d"
  by (simp add: heat_cell_def Let_def)

lemma heat_cell_outside:
  "\<not> (ms \<le> d \<and> d \<le> me) \<Longrightarrow>
   hm_due (heat_cell habit lookup ms me fm d) = 0 \<and> hm_done (heat_cell habit lookup ms me fm d) = None"
  by (simp add: heat_cell_def Let_def)

lemma heatmap_frame_built:
  assumes v: "valid_date month_start" and le: "month_start \<le> month_end"
    and m: "month_end < MAXORDINAL"
  shows "heatmap_frame habit checkins month_start month_end =
           Inr (map (heat_cell habit (checkin_lookup checkins) month_start month_end
                       (month_start - weekday month_start))
                    [month_start - weekday month_start..month_end])"
proof -
  note fm = first_monday[OF v]
  have "daterange (month_start - weekday month_start) month_end =
          Inr [month_start - weekday month_start..month_end]"
    using daterange_ok[OF fm(5)] m by simp
  then show ?thesis by (simp add: heatmap_frame_def Let_def fm(1))
qed

lemma heatmap_frame_last_month:
  assumes v: "valid_date month_start" and le: "month_start \<le> month_end"
    and m: "month_end = MAXORDINAL"
  shows "heatmap_frame habit checkins month_start month_end = Inl OverflowError"
proof -
  note fm = first_monday[OF v]
  have ne: "\<not> month_end < month_start - weekday month_start" using fm(3) le by simp
  have "daterange (month_start - weekday month_start) month_end = Inl OverflowError"
    using daterange_eq[OF fm(5), of month_end] ne m by simp
  then show ?thesis by (simp add: heatmap_frame_def Let_def fm(1))
qed

text \<open>
  C9, as stated: for every habit and month, \<^verbatim>\<open>heatmap_frame\<close> builds the grid from the
  Monday on or before \<open>month_start\<close> to \<open>month_end\<close>. For December 9999 (ordinals
  3652029 to 3652059, the last one \<^verbatim>\<open>date.max\<close>) no grid is built: \<^verbatim>\<open>daterange\<close> steps
  \<^verbatim>\<open>cur += timedelta(days=1)\<close> after the last day and \<^verbatim>\<open>heatmap_frame\<close> ends with that
  \<^verbatim>\<open>OverflowError\<close>.
\<close>

theorem heatmap_frame_raises_in_last_month:
  "heatmap_frame \<lparr> id_h = 3, name = ''Read'', description = [],
                    schedule_type = Some ''daily'', custom_days = Some [],
                    created_at = ''2024-01-01T08:00:00'' \<rparr> [] 3652029 3652059
   = Inl OverflowError"
proof -
  have "valid_date 3652029" "(3652029::int) \<le> 3652059" "3652059 = MAXORDINAL"
    by (simp_all add: valid_date_def MINORDINAL_def MAXORDINAL_def)
  then show ?thesis by (rule heatmap_frame_last_month)
qed

text \<open>
  C9, amended. For every habit and every month from \<open>month_start\<close> to \<open>month_end\<close> that
  ends before \<^verbatim>\<open>date.max\<close>, \<^verbatim>\<open>heatmap_frame\<close> returns a grid with one row per day from
  the Monday on or before \<open>month_start\<close> (at most 6 days earlier) to \<open>month_end\<close>, in
  order, and every row whose day is outside the month has \<open>due = 0\<close> and no \<open>done\<close>
  value, whatever the schedule of the habit. For a month that ends on \<^verbatim>\<open>date.max\<close>
  (December 9999) it raises \<^verbatim>\<open>OverflowError\<close>.
\<close>

theorem heatmap_frame_grid:
  "(valid_date month_start \<and> valid_date month_end \<and> month_start \<le> month_end
      \<and> month_end < MAXORDINAL
    \<longrightarrow> (\<exists>rows. heatmap_frame habit checkins month_start month_end = Inr rows
        \<and> rows \<noteq> []
        \<and> map hm_day rows = [month_start - weekday month_start..month_end]
        \<and> hm_day (hd rows) = month_start - weekday month_start
        \<and> weekday (hm_day (hd rows)) = 0
        \<and> hm_day (hd rows) \<le> month_start \<and> month_start - hm_day (hd rows) < 7
        \<and> hm_day (last rows) = month_end
        \<and> (\<forall>r \<in> set rows. \<not> (month_start \<le> hm_day r \<and> hm_day r \<le> month_end)
               \<longrightarrow> hm_due r = 0 \<and> hm_done r = None)))
   \<and> (valid_date month_start \<and> month_start \<le> month_end \<and> month_end = MAXORDINAL
      \<longrightarrow> heatmap_frame habit checkins month_start month_end = Inl OverflowError)"
proof (intro conjI impI)
  assume a: "valid_date month_start \<and> valid_date month_end \<and> month_start \<le> month_end
      \<and> month_end < MAXORDINAL"
  let ?fm = "month_start - weekday month_start"
  let ?cell = "heat_cell habit (checkin_lookup checkins) month_start month_end ?fm"
  define rows where "rows = map ?cell [?fm..month_end]"
  note fm = first_monday[of month_start]
  have built: "heatmap_frame habit checkins month_start month_end = Inr rows"
    unfolding rows_def using a by (intro heatmap_frame_built) simp_all
  have le: "?fm \<le> month_end" using fm(3) a by simp
  have days: "map hm_day rows = [?fm..month_end]"
    unfolding rows_def by (simp add: heat_cell_day comp_def)
  have ne: "rows \<noteq> []" using le by (simp add: rows_def)
  have "[?fm..month_end] = ?fm # [?fm + 1..month_end]"
    using le by (simp add: upto_rec1)
  then have hd: "hm_day (hd rows) = ?fm"
    unfolding rows_def by (simp add: heat_cell_day)
  have mon: "weekday (hm_day (hd rows)) = 0" using hd fm(2) a by simp
  have before: "hm_day (hd rows) \<le> month_start" using hd fm(3) a by simp
  have near: "month_start - hm_day (hd rows) < 7" using hd fm(4) a by simp
  have "[?fm..month_end] = [?fm..month_end - 1] @ [month_end]"
    using le by (simp add: upto_rec2)
  then have lst: "hm_day (last rows) = month_end"
    unfolding rows_def by (simp add: heat_cell_day)
  have out: "\<forall>r \<in> set rows. \<not> (month_start \<le> hm_day r \<and> hm_day r \<le> month_end)
               \<longrightarrow> hm_due r = 0 \<and> hm_done r = None"
    unfolding rows_def using heat_cell_outside by (auto simp: heat_cell_day)
  show "\<exists>rows. heatmap_frame habit checkins month_start month_end = Inr rows
        \<and> rows \<noteq> []
        \<and> map hm_day rows = [month_start - weekday month_start..month_end]
        \<and> hm_day (hd rows) = month_start - weekday month_start
        \<and> weekday (hm_day (hd rows)) = 0
        \<and> hm_day (hd rows) \<le> month_start \<and> month_start - hm_day (hd rows) < 7
        \<and> hm_day (last rows) = month_end
        \<and> (\<forall>r \<in> set rows. \<not> (month_start \<le> hm_day r \<and> hm_day r \<le> month_end)
               \<longrightarrow> hm_due r = 0 \<and> hm_done r = None)"
    using built ne days hd mon before near lst out by blast
next
  assume "valid_date month_start \<and> month_start \<le> month_end \<and> month_end = MAXORDINAL"
  then show "heatmap_frame habit checkins month_start month_end = Inl OverflowError"
    by (simp add: heatmap_frame_last_month)
qed

theorem heatmap_frame_grid_witness:
  "(\<exists>rows. heatmap_frame ex_daily ex_week 738552 738579 = Inr rows
      \<and> hm_day (hd rows) = 738550 \<and> weekday 738550 = 0 \<and> hm_day (last rows) = 738579
      \<and> length rows = 30
      \<and> (\<forall>r \<in> set rows. hm_day r < 738552 \<longrightarrow> hm_due r = 0 \<and> hm_done r = None))
   \<and> heatmap_frame ex_daily ex_week 3652029 3652059 = Inl OverflowError"
proof -
  have h: "valid_date 738552 \<and> valid_date 738579 \<and> (738552::int) \<le> 738579
             \<and> 738579 < MAXORDINAL"
    by (simp add: valid_date_def MINORDINAL_def MAXORDINAL_def)
  obtain rows where r: "heatmap_frame ex_daily ex_week 738552 738579 = Inr rows"
    and p: "map hm_day rows = [738552 - weekday 738552..738579]
        \<and> hm_day (hd rows) = 738552 - weekday 738552
        \<and> hm_day (last rows) = 738579
        \<and> (\<forall>r \<in> set rows. \<not> (738552 \<le> hm_day r \<and> hm_day r \<le> 738579)
               \<longrightarrow> hm_due r = 0 \<and> hm_done r = None)"
    using heatmap_frame_grid [of 738552 738579 ex_daily ex_week] h by blast
  have w: "weekday 738552 = 2" "weekday 738550 = 0"
    by (simp_all add: weekday_def)
  have "length (map hm_day rows) = 30"
    using p by (simp add: w)
  then have l: "length rows = 30" by simp
  have a: "\<exists>rows. heatmap_frame ex_daily ex_week 738552 738579 = Inr rows
      \<and> hm_day (hd rows) = 738550 \<and> weekday 738550 = 0 \<and> hm_day (last rows) = 738579
      \<and> length rows = 30
      \<and> (\<forall>r \<in> set rows. hm_day r < 738552 \<longrightarrow> hm_due r = 0 \<and> hm_done r = None)"
    using r p l w by auto
  have m: "valid_date 3652029 \<and> (3652029::int) \<le> 3652059 \<and> 3652059 = MAXORDINAL"
    by (simp add: valid_date_def MINORDINAL_def MAXORDINAL_def)
  have b: "heatmap_frame ex_daily ex_week 3652029 3652059 = Inl OverflowError"
    using heatmap_frame_grid [of 3652029 3652059 ex_daily ex_week] m by blast
  show ?thesis using a b by blast
qed

subsection \<open>The store\<close>

lemma with_connect_Inr:
  "body connect db = Inr (conn, db') \<Longrightarrow> with_connect body db = Inr db'"
  by (simp add: with_connect_def)

lemma init_db_eq: "init_db db = Inr db"
  by (simp add: init_db_def with_connect_def)

lemma delete_habit_eq:
  "delete_habit habit_id db =
     (if sqlite_int habit_id
      then Inr (db\<lparr> habits_tbl := filter (\<lambda>h. id_h h \<noteq> habit_id) (habits_tbl db) \<rparr>)
      else Inl OverflowError)"
  by (simp add: delete_habit_def with_connect_def sql_delete_habit_def connect_def Let_def)

lemma delete_habit_checkins:
  "delete_habit habit_id db = Inr db' \<Longrightarrow>
   checkins_tbl db' = checkins_tbl db
   \<and> list_checkins_for_habit habit_id db' = list_checkins_for_habit habit_id db"
  by (auto simp: delete_habit_eq list_checkins_for_habit_def split: if_splits)

lemma sql_delete_habit_cascade:
  "foreign_keys conn \<Longrightarrow> \<exists>h \<in> set (habits_tbl db). id_h h = habit_id \<Longrightarrow>
   sql_delete_habit habit_id conn db = Inr (conn', db') \<Longrightarrow>
   list_checkins_for_habit habit_id db' = []"
  by (auto simp: sql_delete_habit_def list_checkins_for_habit_def Let_def filter_empty_conv)

lemma create_habit_checkins:
  "create_habit nm descr st cd created db = Inr db' \<Longrightarrow> checkins_tbl db' = checkins_tbl db"
  by (auto simp: create_habit_def with_connect_def sql_insert_habit_def connect_def
           split: if_splits)

lemma update_habit_checkins:
  "update_habit habit_id nm descr st cd db = Inr db' \<Longrightarrow> checkins_tbl db' = checkins_tbl db"
  by (auto simp: update_habit_def with_connect_def sql_update_habit_def connect_def
           split: if_splits)

lemma upsert_checkin_Inr:
  assumes "upsert_checkin habit_id dy done_b note_v created db = Inr db'"
  shows "sqlite_int habit_id" and "checkins_seq db < MAX_ROWID"
proof -
  show i: "sqlite_int habit_id"
    using assms unfolding upsert_checkin_def by (simp split: if_splits)
  show "checkins_seq db < MAX_ROWID"
  proof (rule ccontr)
    assume "\<not> checkins_seq db < MAX_ROWID"
    then have "MAX_ROWID \<le> checkins_seq db" by simp
    then have "upsert_checkin habit_id dy done_b note_v created db = Inl OperationalError"
      unfolding upsert_checkin_def with_connect_def sql_upsert_checkin_def
      by (simp add: i split del: if_split)
    then show False using assms by simp
  qed
qed

lemma upsert_checkin_overflow:
  "\<not> sqlite_int habit_id \<Longrightarrow>
   upsert_checkin habit_id dy done_b note_v created db = Inl OverflowError"
  by (simp add: upsert_checkin_def)

lemma upsert_checkin_full:
  "sqlite_int habit_id \<Longrightarrow> MAX_ROWID \<le> checkins_seq db \<Longrightarrow>
   upsert_checkin habit_id dy done_b note_v created db = Inl OperationalError"
  unfolding upsert_checkin_def with_connect_def sql_upsert_checkin_def
  by (simp split del: if_split)

lemma upsert_checkin_update:
  assumes i: "sqlite_int habit_id" and q: "checkins_seq db < MAX_ROWID"
    and ex: "\<exists>c \<in> set (checkins_tbl db). ck_habit_id c = habit_id \<and> ck_day c = dy"
  shows "upsert_checkin habit_id dy done_b note_v created db =
     Inr (db\<lparr> checkins_tbl :=
               map (\<lambda>c. if ck_habit_id c = habit_id \<and> ck_day c = dy
                         then c\<lparr> ck_done := (if done_b then 1 else 0),
                                 ck_note := strip note_v \<rparr> else c)
                   (checkins_tbl db),
             checkins_seq := checkins_seq db + 1 \<rparr>)"
proof -
  have nq: "\<not> MAX_ROWID \<le> checkins_seq db" using q by simp
  show ?thesis
    unfolding upsert_checkin_def with_connect_def sql_upsert_checkin_def connect_def
    by (simp add: i if_not_P[OF nq] if_P[OF ex] split del: if_split)
qed

lemma upsert_checkin_insert:
  assumes i: "sqlite_int habit_id" and q: "checkins_seq db < MAX_ROWID"
    and nex: "\<not> (\<exists>c \<in> set (checkins_tbl db). ck_habit_id c = habit_id \<and> ck_day c = dy)"
  shows "upsert_checkin habit_id dy done_b note_v created db =
     Inr (db\<lparr> checkins_tbl :=
               checkins_tbl db @
                 [\<lparr> ck_id = checkins_seq db + 1, ck_habit_id = habit_id, ck_day = dy,
                    ck_done = (if done_b then 1 else 0), ck_note = strip note_v,
                    ck_created_at = created \<rparr>],
             checkins_seq := checkins_seq db + 1 \<rparr>)"
proof -
  have nq: "\<not> MAX_ROWID \<le> checkins_seq db" using q by simp
  show ?thesis
    unfolding upsert_checkin_def with_connect_def sql_upsert_checkin_def connect_def
    by (simp add: i if_not_P[OF nq] if_not_P[OF nex] split del: if_split)
qed

lemma upsert_checkin_seq:
  assumes e: "upsert_checkin habit_id dy done_b note_v created db = Inr db'"
  shows "checkins_seq db' = checkins_seq db + 1"
proof (cases "\<exists>c \<in> set (checkins_tbl db). ck_habit_id c = habit_id \<and> ck_day c = dy")
  case True
  show ?thesis
    using e unfolding upsert_checkin_update[OF upsert_checkin_Inr[OF e] True]
    by (auto split del: if_split)
next
  case False
  show ?thesis
    using e unfolding upsert_checkin_insert[OF upsert_checkin_Inr[OF e] False]
    by (auto split del: if_split)
qed

lemma upsert_checkin_returns:
  assumes i: "sqlite_int habit_id" and q: "checkins_seq db < MAX_ROWID"
  shows "\<exists>db'. upsert_checkin habit_id dy done_b note_v created db = Inr db'"
proof (cases "\<exists>c \<in> set (checkins_tbl db). ck_habit_id c = habit_id \<and> ck_day c = dy")
  case True
  show ?thesis unfolding upsert_checkin_update[OF i q True] by blast
next
  case False
  show ?thesis unfolding upsert_checkin_insert[OF i q False] by blast
qed

lemma upsert_key_unchanged:
  "map (\<lambda>c. (ck_habit_id c, ck_day c))
       (map (\<lambda>c. if ck_habit_id c = habit_id \<and> ck_day c = dy
                 then c\<lparr> ck_done := v, ck_note := n \<rparr> else c) xs)
   = map (\<lambda>c. (ck_habit_id c, ck_day c)) xs"
  by (induction xs) auto

lemma upsert_unique:
  assumes u: "unique_checkins db"
    and e: "upsert_checkin habit_id dy done_b note_v created db = Inr db'"
  shows "unique_checkins db'"
proof (cases "\<exists>c \<in> set (checkins_tbl db). ck_habit_id c = habit_id \<and> ck_day c = dy")
  case True
  have "db' = db\<lparr> checkins_tbl :=
               map (\<lambda>c. if ck_habit_id c = habit_id \<and> ck_day c = dy
                         then c\<lparr> ck_done := (if done_b then 1 else 0),
                                 ck_note := strip note_v \<rparr> else c)
                   (checkins_tbl db),
             checkins_seq := checkins_seq db + 1 \<rparr>"
    using e unfolding upsert_checkin_update[OF upsert_checkin_Inr[OF e] True]
    by (simp only: sum.inject)
  then have d: "checkins_tbl db' =
               map (\<lambda>c. if ck_habit_id c = habit_id \<and> ck_day c = dy
                         then c\<lparr> ck_done := (if done_b then 1 else 0),
                                 ck_note := strip note_v \<rparr> else c)
                   (checkins_tbl db)"
    by (simp split del: if_split)
  show ?thesis
    using u unfolding unique_checkins_def d upsert_key_unchanged .
next
  case False
  then have m: "(habit_id, dy) \<notin> set (map (\<lambda>c. (ck_habit_id c, ck_day c)) (checkins_tbl db))"
    by force
  have "db' = db\<lparr> checkins_tbl :=
               checkins_tbl db @
                 [\<lparr> ck_id = checkins_seq db + 1, ck_habit_id = habit_id, ck_day = dy,
                    ck_done = (if done_b then 1 else 0), ck_note = strip note_v,
                    ck_created_at = created \<rparr>],
             checkins_seq := checkins_seq db + 1 \<rparr>"
    using e upsert_checkin_insert[OF upsert_checkin_Inr[OF e] False] by simp
  then show ?thesis
    using u m unfolding unique_checkins_def by simp
qed

lemma reachable_unique: "reachable db \<Longrightarrow> unique_checkins db"
proof (induction rule: reachable.induct)
  case reach_empty
  show ?case by (simp add: unique_checkins_def empty_db_def)
next
  case (reach_init db db')
  then show ?case by (simp add: init_db_eq)
next
  case (reach_create db nm descr st cd created db')
  then show ?case using create_habit_checkins by (fastforce simp: unique_checkins_def)
next
  case (reach_update db habit_id nm descr st cd db')
  then show ?case using update_habit_checkins by (fastforce simp: unique_checkins_def)
next
  case (reach_delete db habit_id db')
  then show ?case using delete_habit_checkins by (fastforce simp: unique_checkins_def)
next
  case (reach_upsert db habit_id dy done_b note_v created db')
  then show ?case by (auto intro: upsert_unique)
qed

lemma distinct_key_filter:
  "distinct (map f xs) \<Longrightarrow> length (filter (\<lambda>c. f c = k) xs) \<le> 1"
proof (induction xs)
  case Nil
  show ?case by simp
next
  case (Cons x xs)
  show ?case
  proof (cases "f x = k")
    case True
    then have "k \<notin> f ` set xs"
      using Cons.prems by auto
    then have "\<forall>c \<in> set xs. f c \<noteq> k"
      by blast
    then have "filter (\<lambda>c. f c = k) xs = []"
      by (simp add: filter_empty_conv)
    then show ?thesis using True by simp
  next
    case False
    then show ?thesis using Cons by simp
  qed
qed

lemma unique_rows_for: "unique_checkins db \<Longrightarrow> length (rows_for habit_id dy db) \<le> 1"
proof -
  assume "unique_checkins db"
  then have "length (filter (\<lambda>c. (ck_habit_id c, ck_day c) = (habit_id, dy)) (checkins_tbl db)) \<le> 1"
    unfolding unique_checkins_def by (rule distinct_key_filter)
  then show ?thesis by (simp add: rows_for_def)
qed

lemma filter_upd_rows:
  "filter (\<lambda>c. ck_habit_id c = h \<and> ck_day c = d)
          (map (\<lambda>c. if ck_habit_id c = h \<and> ck_day c = d
                    then c\<lparr> ck_done := v, ck_note := n \<rparr> else c) xs)
   = map (\<lambda>c. c\<lparr> ck_done := v, ck_note := n \<rparr>)
         (filter (\<lambda>c. ck_habit_id c = h \<and> ck_day c = d) xs)"
  by (induction xs) auto

lemma upd_rows_fields:
  "\<forall>r \<in> set (map (\<lambda>c. c\<lparr> ck_done := v, ck_note := n \<rparr>) rs). ck_done r = v \<and> ck_note r = n"
  by simp

lemma upsert_rows_update:
  assumes ex: "\<exists>c \<in> set (checkins_tbl db). ck_habit_id c = habit_id \<and> ck_day c = dy"
    and e: "upsert_checkin habit_id dy done_b note_v created db = Inr db'"
  shows "rows_for habit_id dy db' =
           map (\<lambda>c. c\<lparr> ck_done := (if done_b then 1 else 0), ck_note := strip note_v \<rparr>)
               (rows_for habit_id dy db)"
    and "length (checkins_tbl db') = length (checkins_tbl db)"
proof -
  have "db' = db\<lparr> checkins_tbl :=
               map (\<lambda>c. if ck_habit_id c = habit_id \<and> ck_day c = dy
                         then c\<lparr> ck_done := (if done_b then 1 else 0),
                                 ck_note := strip note_v \<rparr> else c)
                   (checkins_tbl db),
             checkins_seq := checkins_seq db + 1 \<rparr>"
    using e unfolding upsert_checkin_update[OF upsert_checkin_Inr[OF e] ex]
    by (simp only: sum.inject)
  then have d: "checkins_tbl db' =
               map (\<lambda>c. if ck_habit_id c = habit_id \<and> ck_day c = dy
                         then c\<lparr> ck_done := (if done_b then 1 else 0),
                                 ck_note := strip note_v \<rparr> else c)
                   (checkins_tbl db)"
    by (simp split del: if_split)
  show "rows_for habit_id dy db' =
           map (\<lambda>c. c\<lparr> ck_done := (if done_b then 1 else 0), ck_note := strip note_v \<rparr>)
               (rows_for habit_id dy db)"
    unfolding rows_for_def d by (rule filter_upd_rows)
  show "length (checkins_tbl db') = length (checkins_tbl db)"
    unfolding d by (rule length_map)
qed

lemma upsert_rows_insert:
  assumes nex: "\<not> (\<exists>c \<in> set (checkins_tbl db). ck_habit_id c = habit_id \<and> ck_day c = dy)"
    and e: "upsert_checkin habit_id dy done_b note_v created db = Inr db'"
  shows "rows_for habit_id dy db' =
           [\<lparr> ck_id = checkins_seq db + 1, ck_habit_id = habit_id, ck_day = dy,
              ck_done = (if done_b then 1 else 0), ck_note = strip note_v,
              ck_created_at = created \<rparr>]"
proof -
  have "db' = db\<lparr> checkins_tbl :=
               checkins_tbl db @
                 [\<lparr> ck_id = checkins_seq db + 1, ck_habit_id = habit_id, ck_day = dy,
                    ck_done = (if done_b then 1 else 0), ck_note = strip note_v,
                    ck_created_at = created \<rparr>],
             checkins_seq := checkins_seq db + 1 \<rparr>"
    using e unfolding upsert_checkin_insert[OF upsert_checkin_Inr[OF e] nex]
    by (simp only: sum.inject)
  then have d: "checkins_tbl db' = checkins_tbl db @
                 [\<lparr> ck_id = checkins_seq db + 1, ck_habit_id = habit_id, ck_day = dy,
                    ck_done = (if done_b then 1 else 0), ck_note = strip note_v,
                    ck_created_at = created \<rparr>]"
    by (simp split del: if_split)
  have f: "filter (\<lambda>c. ck_habit_id c = habit_id \<and> ck_day c = dy) (checkins_tbl db) = []"
    using nex by (simp add: filter_empty_conv)
  show ?thesis
    unfolding rows_for_def d filter_append f by (simp split del: if_split)
qed

lemma upsert_rows_nonempty:
  assumes e: "upsert_checkin habit_id dy done_b note_v created db = Inr db'"
  shows "rows_for habit_id dy db' \<noteq> []
   \<and> (\<forall>r \<in> set (rows_for habit_id dy db').
         ck_done r = (if done_b then 1 else 0) \<and> ck_note r = strip note_v)"
proof (cases "\<exists>c \<in> set (checkins_tbl db). ck_habit_id c = habit_id \<and> ck_day c = dy")
  case True
  then have ne: "rows_for habit_id dy db \<noteq> []"
    unfolding rows_for_def by (simp add: filter_empty_conv)
  show ?thesis
    unfolding upsert_rows_update(1)[OF True e] using ne upd_rows_fields by blast
next
  case False
  show ?thesis
    unfolding upsert_rows_insert[OF False e] by (simp split del: if_split)
qed

lemma upsert_again_length:
  assumes ne: "rows_for habit_id dy db \<noteq> []"
    and e: "upsert_checkin habit_id dy done_b note_v created db = Inr db'"
  shows "length (checkins_tbl db') = length (checkins_tbl db)"
proof -
  have "\<exists>c \<in> set (checkins_tbl db). ck_habit_id c = habit_id \<and> ck_day c = dy"
    using ne unfolding rows_for_def by (simp add: filter_empty_conv)
  then show ?thesis using e by (rule upsert_rows_update(2))
qed

lemma upsert_row:
  assumes u: "unique_checkins db"
    and e: "upsert_checkin habit_id dy done_b note_v created db = Inr db'"
  shows "\<exists>r. rows_for habit_id dy db' = [r]
            \<and> ck_done r = (if done_b then 1 else 0) \<and> ck_note r = strip note_v"
proof -
  have "length (rows_for habit_id dy db') \<le> 1"
    using upsert_unique[OF u e] by (rule unique_rows_for)
  moreover have ne: "rows_for habit_id dy db' \<noteq> []"
    and p: "\<forall>r \<in> set (rows_for habit_id dy db').
         ck_done r = (if done_b then 1 else 0) \<and> ck_note r = strip note_v"
    using upsert_rows_nonempty[OF e] by simp_all
  ultimately obtain r where "rows_for habit_id dy db' = [r]"
    by (cases "rows_for habit_id dy db'") auto
  then show ?thesis using p by auto
qed

lemma ex_store_reachable:
  "reachable
     \<lparr> habits_tbl = [\<lparr> id_h = 1, name = ''Walk'', description = [],
                       schedule_type = Some ''daily'', custom_days = Some [],
                       created_at = ''2024-01-01T08:00:00'' \<rparr>],
       checkins_tbl = [\<lparr> ck_id = 1, ck_habit_id = 1, ck_day = ''2024-01-01'', ck_done = 1,
                         ck_note = [], ck_created_at = ''2024-01-01T09:00:00'' \<rparr>],
       habits_seq = 1, checkins_seq = 1 \<rparr>"
proof -
  have s: "strip ''Walk'' = ''Walk''" "strip [] = []" by code_simp+
  have c: "create_habit ''Walk'' [] ''daily'' [] ''2024-01-01T08:00:00'' empty_db =
     Inr \<lparr> habits_tbl = [\<lparr> id_h = 1, name = ''Walk'', description = [],
                       schedule_type = Some ''daily'', custom_days = Some [],
                       created_at = ''2024-01-01T08:00:00'' \<rparr>],
       checkins_tbl = [], habits_seq = 1, checkins_seq = 0 \<rparr>"
    by (simp add: create_habit_def with_connect_def sql_insert_habit_def connect_def
          empty_db_def MAX_ROWID_def s)
  have u: "upsert_checkin 1 ''2024-01-01'' True [] ''2024-01-01T09:00:00''
       \<lparr> habits_tbl = [\<lparr> id_h = 1, name = ''Walk'', description = [],
                       schedule_type = Some ''daily'', custom_days = Some [],
                       created_at = ''2024-01-01T08:00:00'' \<rparr>],
       checkins_tbl = [], habits_seq = 1, checkins_seq = 0 \<rparr> =
     Inr \<lparr> habits_tbl = [\<lparr> id_h = 1, name = ''Walk'', description = [],
                       schedule_type = Some ''daily'', custom_days = Some [],
                       created_at = ''2024-01-01T08:00:00'' \<rparr>],
       checkins_tbl = [\<lparr> ck_id = 1, ck_habit_id = 1, ck_day = ''2024-01-01'', ck_done = 1,
                         ck_note = [], ck_created_at = ''2024-01-01T09:00:00'' \<rparr>],
       habits_seq = 1, checkins_seq = 1 \<rparr>"
    by (simp add: upsert_checkin_insert sqlite_int_def MAX_ROWID_def s)
  show ?thesis
    by (rule reach_upsert[OF reach_create[OF reach_empty c] u])
qed

text \<open>
  C1. Deleting a habit is claimed to remove its check-ins through the \<^verbatim>\<open>ON DELETE
  CASCADE\<close> of the schema, so that \<^verbatim>\<open>list_checkins_for_habit\<close> is empty afterwards.
  \<^verbatim>\<open>delete_habit\<close> opens a connection of its own, and \<^verbatim>\<open>foreign_keys\<close> is switched on
  only on the connection of \<^verbatim>\<open>init_db\<close>, which is closed by then: the cascade does not
  run (\<open>delete_habit_checkins\<close>; it would on a connection with the setting on,
  \<open>sql_delete_habit_cascade\<close>). In the store with the habit 1 and one check-in of it,
  which \<^verbatim>\<open>create_habit\<close> and \<^verbatim>\<open>upsert_checkin\<close> produce (\<open>ex_store_reachable\<close>),
  \<^verbatim>\<open>delete_habit(1)\<close> removes the habit row and keeps the check-in, and
  \<^verbatim>\<open>list_checkins_for_habit(1)\<close> still returns it.
\<close>

theorem delete_habit_leaves_checkins:
  "delete_habit 1
     \<lparr> habits_tbl = [\<lparr> id_h = 1, name = ''Walk'', description = [],
                       schedule_type = Some ''daily'', custom_days = Some [],
                       created_at = ''2024-01-01T08:00:00'' \<rparr>],
       checkins_tbl = [\<lparr> ck_id = 1, ck_habit_id = 1, ck_day = ''2024-01-01'', ck_done = 1,
                         ck_note = [], ck_created_at = ''2024-01-01T09:00:00'' \<rparr>],
       habits_seq = 1, checkins_seq = 1 \<rparr>
   = Inr \<lparr> habits_tbl = [],
           checkins_tbl = [\<lparr> ck_id = 1, ck_habit_id = 1, ck_day = ''2024-01-01'', ck_done = 1,
                             ck_note = [], ck_created_at = ''2024-01-01T09:00:00'' \<rparr>],
           habits_seq = 1, checkins_seq = 1 \<rparr>
   \<and> list_checkins_for_habit 1
       \<lparr> habits_tbl = [],
         checkins_tbl = [\<lparr> ck_id = 1, ck_habit_id = 1, ck_day = ''2024-01-01'', ck_done = 1,
                           ck_note = [], ck_created_at = ''2024-01-01T09:00:00'' \<rparr>],
         habits_seq = 1, checkins_seq = 1 \<rparr>
     = [\<lparr> day = ''2024-01-01'', done_c = Some 1, note_c = [] \<rparr>]"
  by (simp add: delete_habit_def sqlite_int_def with_connect_def sql_delete_habit_def
        connect_def list_checkins_for_habit_def)

text \<open>
  C7, as stated: for every pair (habit_id, day), two calls of \<^verbatim>\<open>upsert_checkin\<close> with
  \<^verbatim>\<open>done=True\<close> leave exactly one row for the pair. The \<^verbatim>\<open>sqlite3\<close> module binds only
  ints of 64 bits: for \<^verbatim>\<open>habit_id = 2**63\<close> the call raises \<^verbatim>\<open>OverflowError\<close>, on the
  first call and on every later one, and the store has no row for the pair.
\<close>

theorem upsert_checkin_raises_beyond_64_bits:
  "upsert_checkin 9223372036854775808 ''2024-01-01'' True [] ''2024-01-01T09:00:00'' empty_db
     = Inl OverflowError
   \<and> rows_for 9223372036854775808 ''2024-01-01'' empty_db = []"
  by (simp add: upsert_checkin_def sqlite_int_def rows_for_def empty_db_def)

text \<open>
  C7, amended. In every store the application can reach there is at most one check-in row
  for a pair (habit_id, day). For a \<^verbatim>\<open>habit_id\<close> of 64 bits and a store whose
  \<^verbatim>\<open>AUTOINCREMENT\<close> counter of \<^verbatim>\<open>checkins\<close> is at least two below the largest row id
  (\<^verbatim>\<open>2**63 - 1\<close>), \<^verbatim>\<open>upsert_checkin\<close> called twice for the same pair with \<^verbatim>\<open>done=True\<close>
  returns both times and leaves exactly one row for the pair after each call, with
  \<open>done = 1\<close>; the second call inserts nothing (the table keeps its length), writes its
  own note into the row, and each call advances the counter by one. For a \<^verbatim>\<open>habit_id\<close>
  outside 64 bits the call raises \<^verbatim>\<open>OverflowError\<close>, and with the counter at the largest
  row id it raises \<^verbatim>\<open>sqlite3.OperationalError\<close>.
\<close>

theorem upsert_checkin_one_row:
  "(reachable db \<longrightarrow> length (rows_for habit_id dy db) \<le> 1)
   \<and> (reachable db \<and> sqlite_int habit_id \<and> checkins_seq db + 1 < MAX_ROWID \<longrightarrow>
       (\<exists>db1 db2.
           upsert_checkin habit_id dy True note1 created1 db = Inr db1
         \<and> upsert_checkin habit_id dy True note2 created2 db1 = Inr db2
         \<and> reachable db2
         \<and> (\<exists>r. rows_for habit_id dy db1 = [r] \<and> ck_done r = 1)
         \<and> (\<exists>r. rows_for habit_id dy db2 = [r] \<and> ck_done r = 1 \<and> ck_note r = strip note2)
         \<and> length (checkins_tbl db2) = length (checkins_tbl db1)
         \<and> checkins_seq db2 = checkins_seq db + 2))
   \<and> (\<not> sqlite_int habit_id \<longrightarrow>
         upsert_checkin habit_id dy True note1 created1 db = Inl OverflowError)
   \<and> (sqlite_int habit_id \<and> MAX_ROWID \<le> checkins_seq db \<longrightarrow>
         upsert_checkin habit_id dy True note1 created1 db = Inl OperationalError)"
proof (intro conjI impI)
  assume "reachable db"
  then have "unique_checkins db" by (rule reachable_unique)
  then show "length (rows_for habit_id dy db) \<le> 1" by (rule unique_rows_for)
next
  assume a: "reachable db \<and> sqlite_int habit_id \<and> checkins_seq db + 1 < MAX_ROWID"
  then have r: "reachable db" and i: "sqlite_int habit_id"
    and q: "checkins_seq db < MAX_ROWID"
    by simp_all
  have u: "unique_checkins db" using r by (rule reachable_unique)
  obtain db1 where e1: "upsert_checkin habit_id dy True note1 created1 db = Inr db1"
    using upsert_checkin_returns[OF i q] by blast
  have s1: "checkins_seq db1 = checkins_seq db + 1"
    using e1 by (rule upsert_checkin_seq)
  then have q1: "checkins_seq db1 < MAX_ROWID" using a by simp
  obtain db2 where e2: "upsert_checkin habit_id dy True note2 created2 db1 = Inr db2"
    using upsert_checkin_returns[OF i q1] by blast
  have s2: "checkins_seq db2 = checkins_seq db + 2"
    using upsert_checkin_seq[OF e2] s1 by simp
  have r1: "reachable db1" using r e1 by (rule reach_upsert)
  have r2: "reachable db2" using r1 e2 by (rule reach_upsert)
  have u1: "unique_checkins db1" using r1 by (rule reachable_unique)
  have row1: "\<exists>r. rows_for habit_id dy db1 = [r] \<and> ck_done r = 1"
    using upsert_row[OF u e1] by auto
  have row2: "\<exists>r. rows_for habit_id dy db2 = [r] \<and> ck_done r = 1 \<and> ck_note r = strip note2"
    using upsert_row[OF u1 e2] by auto
  have ne: "rows_for habit_id dy db1 \<noteq> []" using row1 by auto
  have len: "length (checkins_tbl db2) = length (checkins_tbl db1)"
    using upsert_again_length[OF ne e2] by simp
  show "\<exists>db1 db2.
           upsert_checkin habit_id dy True note1 created1 db = Inr db1
         \<and> upsert_checkin habit_id dy True note2 created2 db1 = Inr db2
         \<and> reachable db2
         \<and> (\<exists>r. rows_for habit_id dy db1 = [r] \<and> ck_done r = 1)
         \<and> (\<exists>r. rows_for habit_id dy db2 = [r] \<and> ck_done r = 1 \<and> ck_note r = strip note2)
         \<and> length (checkins_tbl db2) = length (checkins_tbl db1)
         \<and> checkins_seq db2 = checkins_seq db + 2"
    using e1 e2 r2 row1 row2 len s2 by blast
next
  assume "\<not> sqlite_int habit_id"
  then show "upsert_checkin habit_id dy True note1 created1 db = Inl OverflowError"
    by (rule upsert_checkin_overflow)
next
  assume "sqlite_int habit_id \<and> MAX_ROWID \<le> checkins_seq db"
  then show "upsert_checkin habit_id dy True note1 created1 db = Inl OperationalError"
    by (simp add: upsert_checkin_full)
qed

theorem upsert_checkin_one_row_witness:
  "(\<exists>db1 db2.
      upsert_checkin 1 ''2024-01-01'' True [] ''2024-01-01T09:00:00'' empty_db = Inr db1
    \<and> upsert_checkin 1 ''2024-01-01'' True ''again '' ''2024-01-01T10:00:00'' db1 = Inr db2
    \<and> checkins_tbl db2 =
        [\<lparr> ck_id = 1, ck_habit_id = 1, ck_day = ''2024-01-01'', ck_done = 1,
           ck_note = ''again'', ck_created_at = ''2024-01-01T09:00:00'' \<rparr>]
    \<and> checkins_seq db2 = 2)
   \<and> length (rows_for 1 ''2024-01-01'' empty_db) \<le> 1
   \<and> upsert_checkin (- 9223372036854775809) ''2024-01-01'' True []
        ''2024-01-01T09:00:00'' empty_db = Inl OverflowError
   \<and> upsert_checkin 1 ''2024-01-01'' True [] ''2024-01-01T09:00:00''
        (empty_db\<lparr> checkins_seq := 9223372036854775807 \<rparr>) = Inl OperationalError"
proof -
  have "sqlite_int 1 \<and> checkins_seq empty_db + 1 < MAX_ROWID"
    by (simp add: sqlite_int_def MAX_ROWID_def empty_db_def)
  then have h: "reachable empty_db \<and> sqlite_int 1 \<and> checkins_seq empty_db + 1 < MAX_ROWID"
    using reach_empty by blast
  obtain db1 db2 where
    e1: "upsert_checkin 1 ''2024-01-01'' True [] ''2024-01-01T09:00:00'' empty_db = Inr db1"
    and e2: "upsert_checkin 1 ''2024-01-01'' True ''again '' ''2024-01-01T10:00:00'' db1 = Inr db2"
    and l: "length (checkins_tbl db2) = length (checkins_tbl db1)"
    and q: "checkins_seq db2 = checkins_seq empty_db + 2"
    using upsert_checkin_one_row [of empty_db 1 "''2024-01-01''" "[]"
        "''2024-01-01T09:00:00''" "''again ''" "''2024-01-01T10:00:00''"] h
    by blast
  have i: "sqlite_int 1" by (simp add: sqlite_int_def)
  have d1: "db1 = \<lparr> habits_tbl = [], checkins_tbl =
        [\<lparr> ck_id = 1, ck_habit_id = 1, ck_day = ''2024-01-01'', ck_done = 1,
           ck_note = [], ck_created_at = ''2024-01-01T09:00:00'' \<rparr>], habits_seq = 0, checkins_seq = 1 \<rparr>"
    using e1 by (simp add: upsert_checkin_insert i MAX_ROWID_def empty_db_def strip_def)
  have "strip ''again '' = ''again''" by code_simp
  then have "checkins_tbl db2 =
        [\<lparr> ck_id = 1, ck_habit_id = 1, ck_day = ''2024-01-01'', ck_done = 1,
           ck_note = ''again'', ck_created_at = ''2024-01-01T09:00:00'' \<rparr>]"
    using e2 unfolding d1 by (auto simp add: upsert_checkin_update i MAX_ROWID_def)
  moreover have "checkins_seq db2 = 2"
    using q by (simp add: empty_db_def)
  ultimately have a: "\<exists>db1 db2.
      upsert_checkin 1 ''2024-01-01'' True [] ''2024-01-01T09:00:00'' empty_db = Inr db1
    \<and> upsert_checkin 1 ''2024-01-01'' True ''again '' ''2024-01-01T10:00:00'' db1 = Inr db2
    \<and> checkins_tbl db2 =
        [\<lparr> ck_id = 1, ck_habit_id = 1, ck_day = ''2024-01-01'', ck_done = 1,
           ck_note = ''again'', ck_created_at = ''2024-01-01T09:00:00'' \<rparr>]
    \<and> checkins_seq db2 = 2"
    using e1 e2 by blast
  have b: "length (rows_for 1 ''2024-01-01'' empty_db) \<le> 1"
    using upsert_checkin_one_row [of empty_db 1 "''2024-01-01''" "[]"
        "''2024-01-01T09:00:00''" "''again ''" "''2024-01-01T10:00:00''"] h
    by blast
  have n: "\<not> sqlite_int (- 9223372036854775809)"
    by (simp add: sqlite_int_def)
  have c: "upsert_checkin (- 9223372036854775809) ''2024-01-01'' True []
        ''2024-01-01T09:00:00'' empty_db = Inl OverflowError"
    using upsert_checkin_one_row [of empty_db "- 9223372036854775809" "''2024-01-01''" "[]"
        "''2024-01-01T09:00:00''" "[]" "''2024-01-01T09:00:00''"] n
    by blast
  have f: "sqlite_int 1
     \<and> MAX_ROWID \<le> checkins_seq (empty_db\<lparr> checkins_seq := 9223372036854775807 \<rparr>)"
    by (simp add: sqlite_int_def MAX_ROWID_def)
  have d: "upsert_checkin 1 ''2024-01-01'' True [] ''2024-01-01T09:00:00''
        (empty_db\<lparr> checkins_seq := 9223372036854775807 \<rparr>) = Inl OperationalError"
    using upsert_checkin_one_row
        [of "empty_db\<lparr> checkins_seq := 9223372036854775807 \<rparr>" 1 "''2024-01-01''" "[]"
        "''2024-01-01T09:00:00''" "[]" "''2024-01-01T09:00:00''"] f
    by blast
  show ?thesis using a b c d by blast
qed

subsection \<open>The month frame\<close>











end
